theory Spec2Isabelle
  imports Main "HOL-Library.AList"
begin

section \<open>JavaScript values\<close>

text \<open>
  The values the peer handles are JSON values, plus \<open>undefined\<close> (an absent argument or
  a missing property) and function objects. Numbers are the integer-valued ones; a
  function is identified by a number. An object is the list of its own properties in
  their order; the keys of an object are distinct.
\<close>

datatype jsval =
    JUndefined
  | JNull
  | JBool bool
  | JNum int
  | JStr string
  | JArr "jsval list"
  | JObj "(string \<times> jsval) list"
  | JFun nat

datatype jstype = TUndefined | TObject | TBoolean | TNumber | TString | TFunction

text \<open>The \<open>typeof\<close> operator: \<open>null\<close>, arrays and objects all answer \<open>'object'\<close>.\<close>

fun typeof :: "jsval \<Rightarrow> jstype" where
  "typeof JUndefined = TUndefined"
| "typeof JNull = TObject"
| "typeof (JBool b) = TBoolean"
| "typeof (JNum n) = TNumber"
| "typeof (JStr s) = TString"
| "typeof (JArr xs) = TObject"
| "typeof (JObj kvs) = TObject"
| "typeof (JFun f) = TFunction"

text \<open>The conversion to boolean that \<open>if (v)\<close> and \<open>!v\<close> apply.\<close>

fun truthy :: "jsval \<Rightarrow> bool" where
  "truthy JUndefined = False"
| "truthy JNull = False"
| "truthy (JBool b) = b"
| "truthy (JNum n) = (n \<noteq> 0)"
| "truthy (JStr s) = (s \<noteq> [])"
| "truthy (JArr xs) = True"
| "truthy (JObj kvs) = True"
| "truthy (JFun f) = True"

text \<open>
  Reading one of the envelope's properties (\<open>id\<close>, \<open>result\<close>, \<open>error\<close>, \<open>method\<close>,
  \<open>params\<close>) of a truthy parsed message: an object answers its own property, every other
  value has none of these and answers \<open>undefined\<close>.
\<close>

fun get_prop :: "jsval \<Rightarrow> string \<Rightarrow> jsval" where
  "get_prop (JObj kvs) k = (case map_of kvs k of Some v \<Rightarrow> v | None \<Rightarrow> JUndefined)"
| "get_prop v k = JUndefined"

text \<open>Decimal digits of a natural number, the name of an array index as a property key.\<close>

fun digits :: "nat \<Rightarrow> string" where
  "digits n =
     (if n < 10 then [char_of (48 + n)]
      else digits (n div 10) @ [char_of (48 + n mod 10)])"

declare digits.simps [simp del]

text \<open>
  The own enumerable properties that \<open>Object.assign\<close> reads from its source, in order:
  the entries of an object, the indexed elements of an array, the indexed characters of
  a string, none for the other values.
\<close>

fun own_props :: "jsval \<Rightarrow> (string \<times> jsval) list" where
  "own_props (JObj kvs) = kvs"
| "own_props (JArr xs) = zip (map digits [0..<length xs]) xs"
| "own_props (JStr s) = zip (map digits [0..<length s]) (map (\<lambda>c. JStr [c]) s)"
| "own_props v = []"

text \<open>
  \<open>Object.assign(target, source)\<close> on a target given by its own properties: each
  property of the source is written with an ordinary assignment, so a later value
  replaces an earlier one under the same key. Assigning under the key \<open>__proto__\<close>
  runs the prototype setter and creates no own property.
\<close>

definition Object_assign :: "(string \<times> jsval) list \<Rightarrow> jsval \<Rightarrow> (string \<times> jsval) list" where
  "Object_assign target source =
     fold (\<lambda>(k, v) t. if k = ''__proto__'' then t else AList.update k v t)
       (own_props source) target"

text \<open>\<open>new Error(msg)\<close>, by its own properties.\<close>

definition new_Error :: "string \<Rightarrow> (string \<times> jsval) list" where
  "new_Error msg = [(''message'', JStr msg)]"

section \<open>Errors and effects\<close>

text \<open>
  Each error the code constructs, with the text of its message:
  \<^item> \<open>JsonSyntaxError s\<close>: the exception \<open>JSON.parse\<close> throws on the text \<open>s\<close>;
  \<^item> \<open>MessageNullEmptyOrUndefined\<close>: \<open>Message cannot be null, empty or undefined\<close>;
  \<^item> \<open>ResponseWithoutResultOrError s\<close>: \<open>Response must have result or error: s\<close>;
  \<^item> \<open>NoPendingRequest id\<close>: \<open>Response with id:id has no pending request\<close>;
  \<^item> \<open>InvalidMessage s\<close>: \<open>Invalid message: s\<close>;
  \<^item> \<open>ParamsNotStructured\<close>: \<open>Params must be structured data (Array | Object)\<close>;
  \<^item> \<open>ProxyRequired\<close>: \<open>api() requires ES6 Proxy. Please use an ES6 compatible engine\<close>;
  \<^item> \<open>ApiAlreadyRegistered\<close>: \<open>The API you are trying to register is already registered\<close>;
  \<^item> \<open>NameAlreadyRegistered n\<close>: \<open>The API n is already registered\<close>;
  \<^item> \<open>NotAClass n t\<close>: \<open>The API n is not a class, it is of type t\<close>;
  \<^item> \<open>TypeError\<close>: the engine's own exception (\<open>in\<close> applied to a primitive, a call of
    a value that is no function);
  \<^item> \<open>Thrown v\<close>: a value thrown by user code (a lifecycle hook).
\<close>

datatype error =
    JsonSyntaxError string
  | MessageNullEmptyOrUndefined
  | ResponseWithoutResultOrError string
  | NoPendingRequest jsval
  | InvalidMessage string
  | ParamsNotStructured
  | ProxyRequired
  | ApiAlreadyRegistered
  | NameAlreadyRegistered string
  | NotAClass string jstype
  | TypeError
  | Thrown jsval

text \<open>
  The pair \<open>{resolve, reject}\<close> stored for a request is the one of the promise that
  \<open>call\<close> created when it allocated the request's id.
\<close>

datatype completion = Completion int

datatype direction = DSend | DReceive

datatype arg = ErrArg error | ValArg jsval

datatype hook_kind = DidMount | WillUnmount

text \<open>
  What the code does to the outside, in the order it does it: handing a string to the
  transport, logging, emitting an event on the dispatcher, settling a promise, calling
  a component's hook, attaching a rejection handler to the promise a hook returned,
  \<open>console.error\<close> from such a handler, calling a user function, registering a
  listener on the dispatcher, terminating the worker, the server peer's \<open>enable\<close>.
\<close>

datatype effect =
    SendMessage string
  | ConsoleLog direction string
  | Emit jsval "arg list"
  | Resolve completion jsval
  | Reject completion "(string \<times> jsval) list"
  | HookCall hook_kind nat
  | CatchAttached hook_kind nat
  | ConsoleError hook_kind nat jsval
  | UserCall nat
  | Subscribe string jsval
  | WorkerTerminate
  | ServerEnable

section \<open>The client peer\<close>

text \<open>
  The fields of \<open>Client\<close>. The pending table is the \<open>Map\<close> from request ids to completion
  pairs, as the list of its entries in insertion order. \<open>effects\<close> is not a field of the
  source: it collects, in order, what the peer has done to the outside.
\<close>

record client =
  responsePromiseMap :: "(int \<times> completion) list"
  nextMessageId :: int
  consoleLog :: bool
  requestQueue :: "string list"
  connected :: bool
  effects :: "effect list"

text \<open>The fields' initialisers and the constructor, which calls \<open>setLogging(opts)\<close>.\<close>

definition setLogging :: "bool \<Rightarrow> 'a client_scheme \<Rightarrow> 'a client_scheme" where
  "setLogging logConsole s = s\<lparr>consoleLog := logConsole\<rparr>"

definition new_client :: "bool \<Rightarrow> client" where
  "new_client logConsole =
     setLogging logConsole
       \<lparr>responsePromiseMap = [], nextMessageId = 0, consoleLog = False,
        requestQueue = [], connected = False, effects = []\<rparr>"

definition perform :: "effect \<Rightarrow> 'a client_scheme \<Rightarrow> 'a client_scheme" where
  "perform e s = s\<lparr>effects := effects s @ [e]\<rparr>"

text \<open>
  Modelled from the spec: \<open>EventDispatcher.emit\<close>, whose source is not part of the
  files at hand. Delivery is synchronous and an emit does not throw; the call is
  recorded with the event's name and arguments.
\<close>

definition emit :: "jsval \<Rightarrow> arg list \<Rightarrow> 'a client_scheme \<Rightarrow> 'a client_scheme" where
  "emit event args s = perform (Emit event args) s"

text \<open>
  The abstract \<open>sendMessage\<close>: the transport accepts the string and returns, without
  throwing and without calling back into the peer before it returns; the call is
  recorded.
\<close>

definition sendMessage :: "string \<Rightarrow> 'a client_scheme \<Rightarrow> 'a client_scheme" where
  "sendMessage messageStr s = perform (SendMessage messageStr) s"

definition logMessage :: "string \<Rightarrow> direction \<Rightarrow> 'a client_scheme \<Rightarrow> 'a client_scheme" where
  "logMessage message dir s = (if consoleLog s then perform (ConsoleLog dir message) s else s)"

text \<open>
  \<open>_sendQueuedRequests\<close>: when connected, the queue is emptied by \<open>splice\<close> first and
  the removed strings are then logged and sent one by one.
\<close>

definition sendQueuedRequests :: "'a client_scheme \<Rightarrow> 'a client_scheme" where
  "sendQueuedRequests s =
     (if connected s
      then fold (\<lambda>messageStr t. sendMessage messageStr (logMessage messageStr DSend t))
             (requestQueue s) (s\<lparr>requestQueue := []\<rparr>)
      else s)"

text \<open>\<open>_send\<close>, with \<open>JSON.stringify\<close> of the engine as the parameter \<open>stringify\<close>.\<close>

definition send :: "(jsval \<Rightarrow> string) \<Rightarrow> jsval \<Rightarrow> 'a client_scheme \<Rightarrow> 'a client_scheme" where
  "send stringify message s =
     sendQueuedRequests (s\<lparr>requestQueue := requestQueue s @ [stringify message]\<rparr>)"

definition didConnect :: "'a client_scheme \<Rightarrow> 'a client_scheme" where
  "didConnect s =
     (if connected s = False then sendQueuedRequests (s\<lparr>connected := True\<rparr>) else s)"

text \<open>The guard of \<open>call\<close> and \<open>notify\<close> on \<open>params\<close>.\<close>

definition params_rejected :: "jsval \<Rightarrow> bool" where
  "params_rejected params = (typeof params \<noteq> TUndefined \<and> typeof params \<noteq> TObject)"

definition request :: "int \<Rightarrow> string \<Rightarrow> jsval \<Rightarrow> jsval" where
  "request i method params =
     JObj [(''id'', JNum i), (''method'', JStr method), (''params'', params)]"

definition notification :: "string \<Rightarrow> jsval \<Rightarrow> jsval" where
  "notification method params = JObj [(''method'', JStr method), (''params'', params)]"

text \<open>
  \<open>call\<close> and \<open>notify\<close> return the outcome (\<open>Inl\<close> the error thrown) together with
  the peer's state after the call, since a throw undoes nothing.
  \<open>call\<close>: a rejected \<open>params\<close> throws before anything else happens. Otherwise the
  counter is incremented, the completion pair of the new promise is stored under the
  new id and the request is handed to \<open>_send\<close>; the promise is returned. The \<open>try\<close> of
  the promise's executor has nothing to catch, since neither \<open>stringify\<close> nor the
  transport throws here.
\<close>

definition call ::
  "(jsval \<Rightarrow> string) \<Rightarrow> string \<Rightarrow> jsval \<Rightarrow> 'a client_scheme \<Rightarrow>
     (error + completion) \<times> 'a client_scheme"
where
  "call stringify method params s =
     (if params_rejected params then (Inl ParamsNotStructured, s)
      else
        let i = nextMessageId s + 1;
            s1 = s\<lparr>nextMessageId := i\<rparr>;
            message = request i method params;
            s2 = s1\<lparr>responsePromiseMap := AList.update i (Completion i) (responsePromiseMap s1)\<rparr>
        in (Inr (Completion i), send stringify message s2))"

definition notify ::
  "(jsval \<Rightarrow> string) \<Rightarrow> string \<Rightarrow> jsval \<Rightarrow> 'a client_scheme \<Rightarrow>
     (error + unit) \<times> 'a client_scheme"
where
  "notify stringify method params s =
     (if params_rejected params then (Inl ParamsNotStructured, s)
      else (Inr (), send stringify (notification method params) s))"

text \<open>
  \<open>Map.has\<close> and \<open>Map.get\<close> on the pending table, whose keys are the numbers that
  \<open>call\<close> stored: a key that is no number is never found.
\<close>

fun map_get :: "(int \<times> completion) list \<Rightarrow> jsval \<Rightarrow> completion option" where
  "map_get m (JNum n) = map_of m n"
| "map_get m v = None"

text \<open>
  \<open>processMessage\<close>, with \<open>JSON.parse\<close> of the engine as the parameter \<open>parse\<close>
  (\<open>None\<close> when it throws). Every test of the source is a test of truthiness.
\<close>

definition processMessage ::
  "(string \<Rightarrow> jsval option) \<Rightarrow> string \<Rightarrow> 'a client_scheme \<Rightarrow> 'a client_scheme"
where
  "processMessage parse messageStr s0 =
     (let s = logMessage messageStr DReceive s0 in
      case parse messageStr of
        None \<Rightarrow> emit (JStr ''error'') [ErrArg (JsonSyntaxError messageStr)] s
      | Some message \<Rightarrow>
          if \<not> truthy message then
            emit (JStr ''error'') [ErrArg MessageNullEmptyOrUndefined] s
          else if truthy (get_prop message ''id'') then
            (case map_get (responsePromiseMap s) (get_prop message ''id'') of
               Some promise \<Rightarrow>
                 if truthy (get_prop message ''result'') then
                   perform (Resolve promise (get_prop message ''result'')) s
                 else if truthy (get_prop message ''error'') then
                   perform (Reject promise
                     (Object_assign (new_Error ''Remote error'') (get_prop message ''error''))) s
                 else
                   emit (JStr ''error'') [ErrArg (ResponseWithoutResultOrError messageStr)] s
             | None \<Rightarrow>
                 emit (JStr ''error'') [ErrArg (NoPendingRequest (get_prop message ''id''))] s)
          else if truthy (get_prop message ''method'') then
            emit (get_prop message ''method'') [ValArg (get_prop message ''params'')] s
          else
            emit (JStr ''error'') [ErrArg (InvalidMessage messageStr)] s)"

section \<open>Histories of a peer\<close>

text \<open>What the transport has observed: the arguments of \<open>sendMessage\<close>, in order.\<close>

fun sent_of :: "effect \<Rightarrow> string list" where
  "sent_of (SendMessage m) = [m]"
| "sent_of e = []"

definition transmitted :: "'a client_scheme \<Rightarrow> string list" where
  "transmitted s = concat (map sent_of (effects s))"

text \<open>
  The operations a peer's owner and its transport apply to it. A \<open>call\<close> or \<open>notify\<close>
  that throws leaves the state it reached.
\<close>

datatype op =
    OpCall string jsval
  | OpNotify string jsval
  | OpDidConnect
  | OpProcessMessage string
  | OpSetLogging bool

fun step ::
  "(string \<Rightarrow> jsval option) \<Rightarrow> (jsval \<Rightarrow> string) \<Rightarrow> op \<Rightarrow> 'a client_scheme \<Rightarrow> 'a client_scheme"
where
  "step parse stringify (OpCall method params) s = snd (call stringify method params s)"
| "step parse stringify (OpNotify method params) s = snd (notify stringify method params s)"
| "step parse stringify OpDidConnect s = didConnect s"
| "step parse stringify (OpProcessMessage messageStr) s = processMessage parse messageStr s"
| "step parse stringify (OpSetLogging b) s = setLogging b s"

definition run ::
  "(string \<Rightarrow> jsval option) \<Rightarrow> (jsval \<Rightarrow> string) \<Rightarrow> op list \<Rightarrow> 'a client_scheme \<Rightarrow> 'a client_scheme"
where
  "run parse stringify ops s = fold (step parse stringify) ops s"

text \<open>
  The messages a history submits, in the order of submission, given the value of the
  id counter before it: one per accepted \<open>call\<close> or \<open>notify\<close>.
\<close>

fun submitted :: "(jsval \<Rightarrow> string) \<Rightarrow> int \<Rightarrow> op list \<Rightarrow> string list" where
  "submitted stringify n [] = []"
| "submitted stringify n (OpCall method params # ops) =
     (if params_rejected params then submitted stringify n ops
      else stringify (request (n + 1) method params) # submitted stringify (n + 1) ops)"
| "submitted stringify n (OpNotify method params # ops) =
     (if params_rejected params then submitted stringify n ops
      else stringify (notification method params) # submitted stringify n ops)"
| "submitted stringify n (x # ops) = submitted stringify n ops"

text \<open>The values the parameter contract names: arrays and objects.\<close>

fun is_array :: "jsval \<Rightarrow> bool" where
  "is_array (JArr xs) = True"
| "is_array v = False"

fun is_object :: "jsval \<Rightarrow> bool" where
  "is_object (JObj kvs) = True"
| "is_object v = False"

section \<open>The component registry\<close>

text \<open>
  The names every plain object inherits from \<open>Object.prototype\<close>: the \<open>in\<close> operator
  and a property read find them on an object that has no own property of that name.
\<close>

definition Object_prototype_keys :: "string list" where
  "Object_prototype_keys =
     [''constructor'', ''hasOwnProperty'', ''isPrototypeOf'', ''propertyIsEnumerable'',
      ''toLocaleString'', ''toString'', ''valueOf'', ''__proto__'',
      ''__defineGetter__'', ''__defineSetter__'', ''__lookupGetter__'', ''__lookupSetter__'']"

text \<open>
  The module's two tables: \<open>registeredComponents\<close>, a plain object used as a dictionary
  from names to classes, and the hidden tag, the property \<open>componentNameSymbol\<close> of a
  class, kept here by the identity of the function object that carries it.
\<close>

record registry =
  registeredComponents :: "(string \<times> jsval) list"
  componentNameTag :: "(nat \<times> string) list"

definition empty_registry :: registry where
  "empty_registry = \<lparr>registeredComponents = [], componentNameTag = []\<rparr>"

text \<open>
  Reading \<open>klass[componentNameSymbol]\<close> on a function object: its own tag, else the tag
  of the nearest class it extends. The parameter \<open>ancestors\<close> gives, for a function
  object, the classes up its prototype chain, nearest first.
\<close>

fun first_tag :: "(nat \<times> string) list \<Rightarrow> nat list \<Rightarrow> string option" where
  "first_tag tags [] = None"
| "first_tag tags (f # fs) = (case map_of tags f of Some n \<Rightarrow> Some n | None \<Rightarrow> first_tag tags fs)"

text \<open>
  \<open>componentNameSymbol in api\<close>: \<open>None\<close> is the TypeError of \<open>in\<close> on a value that is
  no object; arrays and plain objects carry no tag.
\<close>

fun symbol_in :: "(nat \<Rightarrow> nat list) \<Rightarrow> registry \<Rightarrow> jsval \<Rightarrow> bool option" where
  "symbol_in ancestors reg (JFun f) = Some (first_tag (componentNameTag reg) (f # ancestors f) \<noteq> None)"
| "symbol_in ancestors reg (JObj kvs) = Some False"
| "symbol_in ancestors reg (JArr xs) = Some False"
| "symbol_in ancestors reg v = None"

definition name_in :: "string \<Rightarrow> (string \<times> jsval) list \<Rightarrow> bool" where
  "name_in componentName dict =
     (map_of dict componentName \<noteq> None \<or> componentName \<in> set Object_prototype_keys)"

text \<open>\<open>PrivateHelpers._registerComponent\<close>: three checks in the source's order, then the two writes.\<close>

definition PrivateHelpers_registerComponent ::
  "(nat \<Rightarrow> nat list) \<Rightarrow> string \<Rightarrow> jsval \<Rightarrow> registry \<Rightarrow> (error + unit) \<times> registry"
where
  "PrivateHelpers_registerComponent ancestors componentName api reg =
     (case symbol_in ancestors reg api of
        None \<Rightarrow> (Inl TypeError, reg)
      | Some True \<Rightarrow> (Inl ApiAlreadyRegistered, reg)
      | Some False \<Rightarrow>
          if name_in componentName (registeredComponents reg) then
            (Inl (NameAlreadyRegistered componentName), reg)
          else
            (case api of
               JFun f \<Rightarrow>
                 (Inr (),
                  reg\<lparr>componentNameTag := AList.update f componentName (componentNameTag reg),
                      registeredComponents :=
                        AList.update componentName api (registeredComponents reg)\<rparr>)
             | _ \<Rightarrow> (Inl (NotAClass componentName (typeof api)), reg)))"

text \<open>\<open>registerComponent(componentName)\<close> returns the decorator that is applied to the class.\<close>

definition registerComponent ::
  "(nat \<Rightarrow> nat list) \<Rightarrow> string \<Rightarrow> jsval \<Rightarrow> registry \<Rightarrow> (error + unit) \<times> registry"
where
  "registerComponent ancestors componentName =
     (\<lambda>api. PrivateHelpers_registerComponent ancestors componentName api)"

text \<open>
  \<open>getComponentName\<close>: \<open>klass[componentNameSymbol] || null\<close>, with \<open>None\<close> for \<open>null\<close>. A
  property read on \<open>null\<close> or \<open>undefined\<close> is a TypeError; a value that is no function
  has no tag.
\<close>

fun getComponentName :: "(nat \<Rightarrow> nat list) \<Rightarrow> registry \<Rightarrow> jsval \<Rightarrow> error + string option" where
  "getComponentName ancestors reg (JFun f) =
     (case first_tag (componentNameTag reg) (f # ancestors f) of
        Some n \<Rightarrow> if truthy (JStr n) then Inr (Some n) else Inr None
      | None \<Rightarrow> Inr None)"
| "getComponentName ancestors reg JUndefined = Inl TypeError"
| "getComponentName ancestors reg JNull = Inl TypeError"
| "getComponentName ancestors reg v = Inr None"

section \<open>Components and the component system\<close>

text \<open>
  What a lifecycle hook does when it is called: it throws, it returns a value that is no
  promise (\<open>undefined\<close> for a hook that returns nothing), or it returns a promise, which
  is fulfilled (\<open>None\<close>) or rejected with a reason.
\<close>

datatype hook_outcome =
    HookThrows jsval
  | HookReturns jsval
  | HookReturnsPromise "jsval option"

record component =
  instance_id :: nat
  componentDidMount :: "hook_outcome option"
  componentWillUnmount :: "hook_outcome option"

text \<open>
  A component system is a peer with the \<open>Map\<close> of its instances, as the list of its
  entries in insertion order, which is the order in which \<open>Map.forEach\<close> visits them.
  \<open>rejectionHandlers\<close> is not a field of the source: it holds the handlers attached to
  hook promises that are due to run, each with the rejection's reason.
\<close>

record system = client +
  componentInstances :: "(string \<times> component) list"
  rejectionHandlers :: "(hook_kind \<times> nat \<times> jsval) list"

text \<open>
  \<open>if (promise && 'catch' in promise) promise.catch(handler)\<close> on what the hook returned.
  On a promise the handler is attached; when the promise is rejected the handler runs
  later, so it is kept with the reason until then. On a truthy primitive \<open>in\<close> is a
  TypeError. An object or array has a \<open>catch\<close> only as an own property, which is then
  called: a call of a value that is no function is a TypeError.
\<close>

definition catch_rejection ::
  "hook_kind \<Rightarrow> component \<Rightarrow> hook_outcome \<Rightarrow> 'a system_scheme \<Rightarrow> (error + unit) \<times> 'a system_scheme"
where
  "catch_rejection kind c outcome s =
     (case outcome of
        HookThrows e \<Rightarrow> (Inl (Thrown e), s)
      | HookReturnsPromise r \<Rightarrow>
          (let s1 = perform (CatchAttached kind (instance_id c)) s in
           case r of
             None \<Rightarrow> (Inr (), s1)
           | Some reason \<Rightarrow>
               (Inr (), s1\<lparr>rejectionHandlers :=
                  rejectionHandlers s1 @ [(kind, instance_id c, reason)]\<rparr>))
      | HookReturns v \<Rightarrow>
          if \<not> truthy v then (Inr (), s)
          else
            (case v of
               JObj kvs \<Rightarrow>
                 (case map_of kvs ''catch'' of
                    None \<Rightarrow> (Inr (), s)
                  | Some (JFun f) \<Rightarrow> (Inr (), perform (UserCall f) s)
                  | Some _ \<Rightarrow> (Inl TypeError, s))
             | JArr xs \<Rightarrow> (Inr (), s)
             | JFun f \<Rightarrow> (Inr (), s)
             | _ \<Rightarrow> (Inl TypeError, s)))"

text \<open>
  \<open>PrivateHelpers.unmountComponent\<close> and \<open>PrivateHelpers.mountComponent\<close>: the hook, when
  the instance defines it, is called with nothing around the call to catch a throw.
\<close>

definition unmountComponent ::
  "component \<Rightarrow> 'a system_scheme \<Rightarrow> (error + unit) \<times> 'a system_scheme"
where
  "unmountComponent c s =
     (case componentWillUnmount c of
        None \<Rightarrow> (Inr (), s)
      | Some hook \<Rightarrow>
          catch_rejection WillUnmount c hook (perform (HookCall WillUnmount (instance_id c)) s))"

definition mountComponent ::
  "component \<Rightarrow> 'a system_scheme \<Rightarrow> (error + unit) \<times> 'a system_scheme"
where
  "mountComponent c s =
     (case componentDidMount c of
        None \<Rightarrow> (Inr (), s)
      | Some hook \<Rightarrow>
          catch_rejection DidMount c hook (perform (HookCall DidMount (instance_id c)) s))"

text \<open>
  The rejection handlers that are due run later, from the event loop: each reports to
  \<open>console.error\<close>.
\<close>

definition runRejectionHandlers :: "'a system_scheme \<Rightarrow> 'a system_scheme" where
  "runRejectionHandlers s =
     fold (\<lambda>(kind, i, reason) t. perform (ConsoleError kind i reason) t)
       (rejectionHandlers s) (s\<lparr>rejectionHandlers := []\<rparr>)"

text \<open>
  \<open>Map.forEach\<close> on the instance map: the values in insertion order; a throw of the
  callback ends the iteration and propagates.
\<close>

fun forEach ::
  "(component \<Rightarrow> 's \<Rightarrow> (error + unit) \<times> 's) \<Rightarrow> component list \<Rightarrow> 's \<Rightarrow> (error + unit) \<times> 's"
where
  "forEach f [] s = (Inr (), s)"
| "forEach f (c # cs) s =
     (case f c s of
        (Inl e, s1) \<Rightarrow> (Inl e, s1)
      | (Inr u, s1) \<Rightarrow> forEach f cs s1)"

text \<open>
  Modelled from the spec: the \<open>enable\<close> of the server peer (\<open>WebWorkerServer\<close>), whose
  source is not part of the files at hand. It signals the guest that the host is ready;
  the call is recorded. \<open>worker.terminate()\<close> is the engine's and is recorded likewise.
\<close>

definition server_enable :: "'a system_scheme \<Rightarrow> 'a system_scheme" where
  "server_enable s = perform ServerEnable s"

definition worker_terminate :: "'a system_scheme \<Rightarrow> 'a system_scheme" where
  "worker_terminate s = perform WorkerTerminate s"

text \<open>\<open>ComponentSystem.enable\<close>.\<close>

definition enable :: "'a system_scheme \<Rightarrow> (error + unit) \<times> 'a system_scheme" where
  "enable s =
     (let s1 = emit (JStr ''systemWillEnable'') [] s in
      case forEach mountComponent (map snd (componentInstances s1)) s1 of
        (Inl e, s2) \<Rightarrow> (Inl e, s2)
      | (Inr u, s2) \<Rightarrow> (Inr (), server_enable s2))"

text \<open>\<open>ComponentSystem.unmount\<close>.\<close>

definition unmount ::
  "(jsval \<Rightarrow> string) \<Rightarrow> 'a system_scheme \<Rightarrow> (error + unit) \<times> 'a system_scheme"
where
  "unmount stringify s =
     (case notify stringify ''SIGKILL'' JUndefined s of
        (Inl e, s1) \<Rightarrow> (Inl e, s1)
      | (Inr u, s1) \<Rightarrow>
          (let s2 = emit (JStr ''systemWillUnmount'') [] s1 in
           case forEach unmountComponent (map snd (componentInstances s2)) s2 of
             (Inl e, s3) \<Rightarrow> (Inl e, s3)
           | (Inr u, s3) \<Rightarrow>
               (let s4 = s3\<lparr>componentInstances := []\<rparr>;
                    s5 = worker_terminate s4
                in (Inr (), emit (JStr ''systemDidUnmount'') [] s5))))"

definition new_system :: "bool \<Rightarrow> system" where
  "new_system logConsole =
     setLogging logConsole
       \<lparr>responsePromiseMap = [], nextMessageId = 0, consoleLog = False,
        requestQueue = [], connected = False, effects = [],
        componentInstances = [], rejectionHandlers = []\<rparr>"

text \<open>
  The steps of a lifecycle operation among the effects: everything but the console log of
  a message, the attaching of a rejection handler and a call of a user function.
\<close>

fun is_step :: "effect \<Rightarrow> bool" where
  "is_step (ConsoleLog d m) = False"
| "is_step (CatchAttached k i) = False"
| "is_step (UserCall f) = False"
| "is_step e = True"

definition steps :: "effect list \<Rightarrow> effect list" where
  "steps es = filter is_step es"

text \<open>
  A hook completes when the call and the handling of what it returned raise nothing: it
  does not throw, and it returns a promise, a falsy value, an array, a function, or an
  object whose \<open>catch\<close>, if it has one, is a function.
\<close>

fun hook_completes :: "hook_outcome \<Rightarrow> bool" where
  "hook_completes (HookThrows e) = False"
| "hook_completes (HookReturnsPromise r) = True"
| "hook_completes (HookReturns (JObj kvs)) =
     (case map_of kvs ''catch'' of None \<Rightarrow> True | Some (JFun f) \<Rightarrow> True | Some v \<Rightarrow> False)"
| "hook_completes (HookReturns (JArr xs)) = True"
| "hook_completes (HookReturns (JFun f)) = True"
| "hook_completes (HookReturns v) = (\<not> truthy v)"

definition hooks_complete :: "(component \<Rightarrow> hook_outcome option) \<Rightarrow> component list \<Rightarrow> bool" where
  "hooks_complete hook cs =
     list_all (\<lambda>c. case hook c of None \<Rightarrow> True | Some h \<Rightarrow> hook_completes h) cs"

text \<open>The calls of a hook on the instances that define it, in the order of the instances.\<close>

definition hook_calls ::
  "hook_kind \<Rightarrow> (component \<Rightarrow> hook_outcome option) \<Rightarrow> component list \<Rightarrow> effect list"
where
  "hook_calls kind hook cs =
     map (\<lambda>c. HookCall kind (instance_id c)) (filter (\<lambda>c. hook c \<noteq> None) cs)"

section \<open>The proxy of \<open>api()\<close>\<close>

text \<open>
  Objects with an identity live in a heap, addressed by their position. A value read
  from a namespace is a reference into the heap, the base prototype \<open>Object.prototype\<close>,
  or a member that the target inherits from it.
\<close>

datatype pvalue = Ref nat | ObjectPrototype | Inherited string

text \<open>
  The three functions the \<open>get\<close> trap builds, with the event or method name they close
  over (prefix included): the subscriber of \<open>on...\<close>, the notifier of \<open>emit...\<close>, the caller.
\<close>

datatype closure = OnFn string | EmitFn string | CallFn string

datatype heap_object =
    Namespace "string option" "(string \<times> pvalue) list"
  | Closure closure

record world = client +
  heap :: "heap_object list"
  hasProxy :: bool

definition alloc :: "heap_object \<Rightarrow> 'a world_scheme \<Rightarrow> pvalue \<times> 'a world_scheme" where
  "alloc obj w = (Ref (length (heap w)), w\<lparr>heap := heap w @ [obj]\<rparr>)"

text \<open>\<open>api(prefix)\<close>: a new proxy over an empty target, which remembers the prefix.\<close>

definition api :: "string option \<Rightarrow> 'a world_scheme \<Rightarrow> (error + pvalue) \<times> 'a world_scheme" where
  "api prefix w =
     (if \<not> hasProxy w then (Inl ProxyRequired, w)
      else (let (v, w1) = alloc (Namespace prefix []) w in (Inr v, w1)))"

text \<open>\<open>target[prop]\<close> on the trap's target, a plain object: own, else inherited.\<close>

definition target_get :: "(string \<times> pvalue) list \<Rightarrow> string \<Rightarrow> pvalue option" where
  "target_get target prop =
     (case map_of target prop of
        Some v \<Rightarrow> Some v
      | None \<Rightarrow>
          if prop = ''__proto__'' then Some ObjectPrototype
          else if prop \<in> set Object_prototype_keys then Some (Inherited prop)
          else None)"

text \<open>\<open>target[prop] = v\<close> on the target of the proxy at address \<open>r\<close>.\<close>

definition target_set :: "nat \<Rightarrow> string \<Rightarrow> pvalue \<Rightarrow> 'a world_scheme \<Rightarrow> 'a world_scheme" where
  "target_set r prop v w =
     (case heap w ! r of
        Namespace prefix target \<Rightarrow>
          w\<lparr>heap := (heap w)[r := Namespace prefix (AList.update prop v target)]\<rparr>
      | Closure c \<Rightarrow> w)"

text \<open>
  The \<open>get\<close> trap of the proxy at address \<open>r\<close>. Every value a target holds or inherits is
  an object, so the first test succeeds exactly when \<open>target[prop]\<close> exists. An address
  that holds no proxy has no trap, which the model answers with a TypeError.
\<close>

definition proxy_get ::
  "nat \<Rightarrow> string \<Rightarrow> 'a world_scheme \<Rightarrow> (error + pvalue) \<times> 'a world_scheme"
where
  "proxy_get r prop w =
     (if \<not> r < length (heap w) then (Inl TypeError, w)
      else
        case heap w ! r of
          Closure c \<Rightarrow> (Inl TypeError, w)
        | Namespace prefix target \<Rightarrow>
            (case target_get target prop of
               Some v \<Rightarrow> (Inr v, w)
             | None \<Rightarrow>
                 if prop = ''__proto__'' \<or> prop = ''prototype'' then (Inr ObjectPrototype, w)
                 else
                   (case prefix of
                      None \<Rightarrow>
                        (case api (Some (prop @ ''.'')) w of
                           (Inl e, w1) \<Rightarrow> (Inl e, w1)
                         | (Inr v, w1) \<Rightarrow> (Inr v, target_set r prop v w1))
                    | Some pre \<Rightarrow>
                        (let fn =
                           (if take 2 prop = ''on'' \<and> length prop > 3 then OnFn (pre @ drop 2 prop)
                            else if take 4 prop = ''emit'' \<and> length prop > 5 then
                              EmitFn (pre @ drop 4 prop)
                            else CallFn (pre @ prop));
                             (v, w1) = alloc (Closure fn) w
                         in (Inr v, target_set r prop v w1)))))"

text \<open>
  Calling one of the functions the trap built. The caller and the notifier pack their
  arguments into an array. Modelled from the spec: \<open>EventDispatcher.on\<close>, whose source is
  not part of the files at hand; the registration is recorded with the event's name and
  the handler given.
\<close>

datatype invoke_result = RPromise completion | RVoid

definition invoke ::
  "(jsval \<Rightarrow> string) \<Rightarrow> nat \<Rightarrow> jsval list \<Rightarrow> 'a world_scheme \<Rightarrow>
     (error + invoke_result) \<times> 'a world_scheme"
where
  "invoke stringify r args w =
     (if \<not> r < length (heap w) then (Inl TypeError, w)
      else
        case heap w ! r of
          Namespace prefix target \<Rightarrow> (Inl TypeError, w)
        | Closure (CallFn name) \<Rightarrow>
            (case call stringify name (JArr args) w of
               (Inl e, w1) \<Rightarrow> (Inl e, w1)
             | (Inr p, w1) \<Rightarrow> (Inr (RPromise p), w1))
        | Closure (EmitFn name) \<Rightarrow>
            (case notify stringify name (JArr args) w of
               (Inl e, w1) \<Rightarrow> (Inl e, w1)
             | (Inr u, w1) \<Rightarrow> (Inr RVoid, w1))
        | Closure (OnFn name) \<Rightarrow>
            (Inr RVoid,
             perform (Subscribe name (case args of [] \<Rightarrow> JUndefined | handler # rest \<Rightarrow> handler)) w))"

definition new_world :: "bool \<Rightarrow> world" where
  "new_world logConsole =
     setLogging logConsole
       \<lparr>responsePromiseMap = [], nextMessageId = 0, consoleLog = False,
        requestQueue = [], connected = False, effects = [],
        heap = [], hasProxy = True\<rparr>"

section \<open>Properties of the client peer\<close>

subsection \<open>How each operation changes the state\<close>

lemma effects_perform [simp]: "effects (perform e s) = effects s @ [e]"
  and queue_perform [simp]: "requestQueue (perform e s) = requestQueue s"
  and connected_perform [simp]: "connected (perform e s) = connected s"
  and map_perform [simp]: "responsePromiseMap (perform e s) = responsePromiseMap s"
  and next_perform [simp]: "nextMessageId (perform e s) = nextMessageId s"
  and log_perform [simp]: "consoleLog (perform e s) = consoleLog s"
  by (simp_all add: perform_def)

lemma transmitted_perform:
  "transmitted (perform e s) = transmitted s @ sent_of e"
  by (simp add: transmitted_def)

lemma logMessage_fields [simp]:
  "requestQueue (logMessage m d s) = requestQueue s"
  "connected (logMessage m d s) = connected s"
  "responsePromiseMap (logMessage m d s) = responsePromiseMap s"
  "nextMessageId (logMessage m d s) = nextMessageId s"
  "consoleLog (logMessage m d s) = consoleLog s"
  "transmitted (logMessage m d s) = transmitted s"
  by (simp_all add: logMessage_def transmitted_perform)

lemma sendMessage_fields [simp]:
  "requestQueue (sendMessage m s) = requestQueue s"
  "connected (sendMessage m s) = connected s"
  "responsePromiseMap (sendMessage m s) = responsePromiseMap s"
  "nextMessageId (sendMessage m s) = nextMessageId s"
  "consoleLog (sendMessage m s) = consoleLog s"
  "transmitted (sendMessage m s) = transmitted s @ [m]"
  by (simp_all add: sendMessage_def transmitted_perform)

lemma emit_fields [simp]:
  "requestQueue (emit ev as s) = requestQueue s"
  "connected (emit ev as s) = connected s"
  "responsePromiseMap (emit ev as s) = responsePromiseMap s"
  "nextMessageId (emit ev as s) = nextMessageId s"
  "consoleLog (emit ev as s) = consoleLog s"
  "transmitted (emit ev as s) = transmitted s"
  "effects (emit ev as s) = effects s @ [Emit ev as]"
  by (simp_all add: emit_def transmitted_perform)

lemma flush_fold:
  "requestQueue (fold (\<lambda>m t. sendMessage m (logMessage m DSend t)) q s) = requestQueue s
   \<and> connected (fold (\<lambda>m t. sendMessage m (logMessage m DSend t)) q s) = connected s
   \<and> responsePromiseMap (fold (\<lambda>m t. sendMessage m (logMessage m DSend t)) q s) = responsePromiseMap s
   \<and> nextMessageId (fold (\<lambda>m t. sendMessage m (logMessage m DSend t)) q s) = nextMessageId s
   \<and> consoleLog (fold (\<lambda>m t. sendMessage m (logMessage m DSend t)) q s) = consoleLog s
   \<and> transmitted (fold (\<lambda>m t. sendMessage m (logMessage m DSend t)) q s) = transmitted s @ q"
  by (induction q arbitrary: s) simp_all

lemma transmitted_queue_update [simp]:
  "transmitted (s\<lparr>requestQueue := q\<rparr>) = transmitted s"
  "transmitted (s\<lparr>connected := c\<rparr>) = transmitted s"
  "transmitted (s\<lparr>nextMessageId := n\<rparr>) = transmitted s"
  "transmitted (s\<lparr>responsePromiseMap := m\<rparr>) = transmitted s"
  "transmitted (s\<lparr>consoleLog := b\<rparr>) = transmitted s"
  by (simp_all add: transmitted_def)

lemma sendQueuedRequests_fields:
  "requestQueue (sendQueuedRequests s) = (if connected s then [] else requestQueue s)"
  "connected (sendQueuedRequests s) = connected s"
  "responsePromiseMap (sendQueuedRequests s) = responsePromiseMap s"
  "nextMessageId (sendQueuedRequests s) = nextMessageId s"
  "consoleLog (sendQueuedRequests s) = consoleLog s"
  "transmitted (sendQueuedRequests s) = transmitted s @ (if connected s then requestQueue s else [])"
  by (simp_all add: sendQueuedRequests_def flush_fold)

lemma send_fields:
  "requestQueue (send st msg s) = (if connected s then [] else requestQueue s @ [st msg])"
  "connected (send st msg s) = connected s"
  "responsePromiseMap (send st msg s) = responsePromiseMap s"
  "nextMessageId (send st msg s) = nextMessageId s"
  "consoleLog (send st msg s) = consoleLog s"
  "transmitted (send st msg s) = transmitted s @ (if connected s then requestQueue s @ [st msg] else [])"
  by (simp_all add: send_def sendQueuedRequests_fields)

lemma didConnect_fields:
  "requestQueue (didConnect s) = (if connected s then requestQueue s else [])"
  "connected (didConnect s) = True"
  "responsePromiseMap (didConnect s) = responsePromiseMap s"
  "nextMessageId (didConnect s) = nextMessageId s"
  "consoleLog (didConnect s) = consoleLog s"
  "transmitted (didConnect s) = transmitted s @ (if connected s then [] else requestQueue s)"
  by (simp_all add: didConnect_def sendQueuedRequests_fields)

lemma didConnect_connected: "connected s \<Longrightarrow> didConnect s = s"
  by (simp add: didConnect_def)

lemma didConnect_idem: "didConnect (didConnect s) = didConnect s"
  by (simp add: didConnect_connected didConnect_fields)

lemma processMessage_fields:
  "requestQueue (processMessage pa str s) = requestQueue s"
  "connected (processMessage pa str s) = connected s"
  "responsePromiseMap (processMessage pa str s) = responsePromiseMap s"
  "nextMessageId (processMessage pa str s) = nextMessageId s"
  "consoleLog (processMessage pa str s) = consoleLog s"
  "transmitted (processMessage pa str s) = transmitted s"
  by (simp_all add: processMessage_def Let_def transmitted_perform split: option.splits)

lemma call_fields:
  "fst (call st m p s) =
     (if params_rejected p then Inl ParamsNotStructured else Inr (Completion (nextMessageId s + 1)))"
  "nextMessageId (snd (call st m p s)) =
     (if params_rejected p then nextMessageId s else nextMessageId s + 1)"
  "connected (snd (call st m p s)) = connected s"
  "requestQueue (snd (call st m p s)) =
     (if params_rejected p then requestQueue s
      else if connected s then [] else requestQueue s @ [st (request (nextMessageId s + 1) m p)])"
  "transmitted (snd (call st m p s)) =
     (if params_rejected p then transmitted s
      else transmitted s @
        (if connected s then requestQueue s @ [st (request (nextMessageId s + 1) m p)] else []))"
  "responsePromiseMap (snd (call st m p s)) =
     (if params_rejected p then responsePromiseMap s
      else AList.update (nextMessageId s + 1) (Completion (nextMessageId s + 1)) (responsePromiseMap s))"
  by (simp_all add: call_def Let_def send_fields)

lemma call_rejected: "params_rejected p \<Longrightarrow> call st m p s = (Inl ParamsNotStructured, s)"
  by (simp add: call_def)

lemma notify_fields:
  "fst (notify st m p s) = (if params_rejected p then Inl ParamsNotStructured else Inr ())"
  "nextMessageId (snd (notify st m p s)) = nextMessageId s"
  "connected (snd (notify st m p s)) = connected s"
  "requestQueue (snd (notify st m p s)) =
     (if params_rejected p then requestQueue s
      else if connected s then [] else requestQueue s @ [st (notification m p)])"
  "transmitted (snd (notify st m p s)) =
     (if params_rejected p then transmitted s
      else transmitted s @ (if connected s then requestQueue s @ [st (notification m p)] else []))"
  "responsePromiseMap (snd (notify st m p s)) = responsePromiseMap s"
  by (simp_all add: notify_def send_fields)

lemma notify_rejected: "params_rejected p \<Longrightarrow> notify st m p s = (Inl ParamsNotStructured, s)"
  by (simp add: notify_def)

lemma setLogging_fields [simp]:
  "requestQueue (setLogging b s) = requestQueue s"
  "connected (setLogging b s) = connected s"
  "nextMessageId (setLogging b s) = nextMessageId s"
  "transmitted (setLogging b s) = transmitted s"
  by (simp_all add: setLogging_def)

lemma step_queue_empty:
  "requestQueue s = [] \<or> \<not> connected s \<Longrightarrow>
   requestQueue (step pa st x s) = [] \<or> \<not> connected (step pa st x s)"
  by (cases x)
     (auto simp: call_fields notify_fields didConnect_fields processMessage_fields)

lemma run_queue_empty:
  "requestQueue s = [] \<or> \<not> connected s \<Longrightarrow>
   requestQueue (run pa st ops s) = [] \<or> \<not> connected (run pa st ops s)"
  unfolding run_def
proof (induction ops arbitrary: s)
  case Nil
  then show ?case by simp
next
  case (Cons x ops)
  from Cons.prems have "requestQueue (step pa st x s) = [] \<or> \<not> connected (step pa st x s)"
    by (rule step_queue_empty)
  then show ?case using Cons.IH by simp
qed

lemma step_fifo:
  "requestQueue s = [] \<or> \<not> connected s \<Longrightarrow>
   transmitted (step pa st x s) @ requestQueue (step pa st x s) =
     transmitted s @ requestQueue s @ submitted st (nextMessageId s) [x]"
  by (cases x)
     (auto simp: call_fields notify_fields didConnect_fields processMessage_fields)

lemma step_counter:
  "nextMessageId (step pa st x s) =
     (case x of OpCall m p \<Rightarrow> if params_rejected p then nextMessageId s else nextMessageId s + 1
      | _ \<Rightarrow> nextMessageId s)"
  by (cases x)
     (auto simp: call_fields notify_fields didConnect_fields processMessage_fields)

lemma submitted_Cons:
  "submitted st n (x # ops) =
     submitted st n [x] @
     submitted st (case x of OpCall m p \<Rightarrow> if params_rejected p then n else n + 1 | _ \<Rightarrow> n) ops"
  by (cases x) auto

lemma run_fifo:
  "requestQueue s = [] \<or> \<not> connected s \<Longrightarrow>
   transmitted (run pa st ops s) @ requestQueue (run pa st ops s) =
     transmitted s @ requestQueue s @ submitted st (nextMessageId s) ops"
  unfolding run_def
proof (induction ops arbitrary: s)
  case Nil
  then show ?case by simp
next
  case (Cons x ops)
  let ?s1 = "step pa st x s"
  have inv: "requestQueue ?s1 = [] \<or> \<not> connected ?s1"
    using Cons.prems by (rule step_queue_empty)
  have tail: "transmitted (fold (step pa st) ops ?s1) @ requestQueue (fold (step pa st) ops ?s1) =
        (transmitted ?s1 @ requestQueue ?s1) @ submitted st (nextMessageId ?s1) ops"
    using Cons.IH [OF inv] by simp
  have head: "transmitted ?s1 @ requestQueue ?s1 =
        transmitted s @ requestQueue s @ submitted st (nextMessageId s) [x]"
    using Cons.prems by (rule step_fifo)
  show ?case
    unfolding fold_Cons comp_apply tail head
    by (simp add: step_counter submitted_Cons [of st "nextMessageId s" x ops])
qed

lemma new_client_fields:
  "requestQueue (new_client b) = []" "connected (new_client b) = False"
  "nextMessageId (new_client b) = 0" "transmitted (new_client b) = []"
  "responsePromiseMap (new_client b) = []" "effects (new_client b) = []"
  by (simp_all add: new_client_def setLogging_def transmitted_def)

subsection \<open>The send queue\<close>

text \<open>
  Claim C4. In every state a new peer reaches through \<open>call\<close>, \<open>notify\<close>, \<open>didConnect\<close>,
  \<open>processMessage\<close> and \<open>setLogging\<close>, the send queue is empty or the peer is not
  connected. \<open>didConnect\<close> is idempotent: a second call changes nothing; the first one
  on a peer that is not connected sets \<open>connected\<close>, empties the queue and hands the
  queued strings to the transport in their order. What the transport has observed,
  followed by what is still queued, is exactly the sequence of the messages submitted, in
  the order of submission: the transport observes a prefix of it, in FIFO order.
\<close>

theorem send_queue_fifo:
  "(requestQueue (run pa st ops (new_client b)) = [] \<or> \<not> connected (run pa st ops (new_client b)))
   \<and> didConnect (didConnect s) = didConnect s
   \<and> connected (didConnect s)
   \<and> (\<not> connected s \<longrightarrow>
        requestQueue (didConnect s) = [] \<and> transmitted (didConnect s) = transmitted s @ requestQueue s)
   \<and> transmitted (run pa st ops (new_client b)) @ requestQueue (run pa st ops (new_client b))
        = submitted st 0 ops"
proof -
  have inv: "requestQueue (new_client b) = [] \<or> \<not> connected (new_client b)"
    by (simp add: new_client_fields)
  have a: "requestQueue (run pa st ops (new_client b)) = [] \<or> \<not> connected (run pa st ops (new_client b))"
    using inv by (rule run_queue_empty)
  have b: "transmitted (run pa st ops (new_client b)) @ requestQueue (run pa st ops (new_client b))
        = submitted st 0 ops"
    using run_fifo [OF inv, of pa st ops] by (simp add: new_client_fields)
  show ?thesis
    using a b by (simp add: didConnect_idem didConnect_fields)
qed

theorem send_queue_fifo_witness:
  "transmitted (run (\<lambda>t. None) (\<lambda>v. case get_prop v ''method'' of JStr m \<Rightarrow> m | _ \<Rightarrow> [])
      [OpCall ''A'' (JArr []), OpNotify ''B'' (JArr [JNum 1]), OpDidConnect] (new_client False))
     = [''A'', ''B'']
   \<and> requestQueue (run (\<lambda>t. None) (\<lambda>v. case get_prop v ''method'' of JStr m \<Rightarrow> m | _ \<Rightarrow> [])
      [OpCall ''A'' (JArr []), OpNotify ''B'' (JArr [JNum 1]), OpDidConnect] (new_client False))
     = []"
  using send_queue_fifo
    [of "\<lambda>t. None" "\<lambda>v. case get_prop v ''method'' of JStr m \<Rightarrow> m | _ \<Rightarrow> []"
        "[OpCall ''A'' (JArr []), OpNotify ''B'' (JArr [JNum 1]), OpDidConnect]" False
        "new_client False"]
  by (simp add: run_def call_fields notify_fields didConnect_fields new_client_fields
      params_rejected_def request_def notification_def)

subsection \<open>Responses\<close>

lemma truthy_prop_is_object: "truthy (get_prop message k) \<Longrightarrow> truthy message"
  by (cases message) simp_all

lemma processMessage_pending:
  assumes "parse messageStr = Some message"
    and "truthy (get_prop message ''id'')"
    and "map_get (responsePromiseMap s) (get_prop message ''id'') = Some promise"
  shows "processMessage parse messageStr s =
     (if truthy (get_prop message ''result'') then
        perform (Resolve promise (get_prop message ''result'')) (logMessage messageStr DReceive s)
      else if truthy (get_prop message ''error'') then
        perform (Reject promise
          (Object_assign (new_Error ''Remote error'') (get_prop message ''error'')))
          (logMessage messageStr DReceive s)
      else emit (JStr ''error'') [ErrArg (ResponseWithoutResultOrError messageStr)]
          (logMessage messageStr DReceive s))"
  using assms truthy_prop_is_object [of message "''id''"]
  by (simp add: processMessage_def Let_def)

text \<open>
  Claim C1, on the code: a response whose id is pending and whose \<open>result\<close> field is
  present but falsy (\<open>0\<close>, \<open>false\<close>, \<open>null\<close>, the empty string), with no \<open>error\<close> field,
  does not resolve the promise. The test \<open>if (message.result)\<close> fails, and the peer
  emits \<open>'error'\<close> with \<open>Response must have result or error\<close>.
\<close>

theorem falsy_result_is_not_resolved:
  assumes "parse messageStr = Some (JObj kvs)"
    and "map_of kvs ''id'' = Some (JNum i)" and "i \<noteq> 0"
    and "map_of (responsePromiseMap s) i = Some promise"
    and "map_of kvs ''result'' = Some r" and "\<not> truthy r"
    and "map_of kvs ''error'' = None"
  shows "effects (processMessage parse messageStr s) =
           effects (logMessage messageStr DReceive s) @
             [Emit (JStr ''error'') [ErrArg (ResponseWithoutResultOrError messageStr)]]"
proof -
  have "processMessage parse messageStr s =
      emit (JStr ''error'') [ErrArg (ResponseWithoutResultOrError messageStr)]
        (logMessage messageStr DReceive s)"
    using assms by (subst processMessage_pending [where message = "JObj kvs" and promise = promise]) simp_all
  then show ?thesis by simp
qed

theorem falsy_result_is_not_resolved_witness:
  "effects (processMessage (\<lambda>t. Some (JObj [(''id'', JNum 1), (''result'', JNum 0)])) ''response''
      (snd (call (\<lambda>v. ''request'') ''isReady'' (JArr []) (new_client False)))) =
   [Emit (JStr ''error'') [ErrArg (ResponseWithoutResultOrError ''response'')]]"
  using falsy_result_is_not_resolved
    [of "\<lambda>t. Some (JObj [(''id'', JNum 1), (''result'', JNum 0)])" "''response''"
        "[(''id'', JNum 1), (''result'', JNum 0)]" 1
        "snd (call (\<lambda>v. ''request'') ''isReady'' (JArr []) (new_client False))"
        "Completion 1" "JNum 0"]
  by (simp add: call_fields new_client_fields params_rejected_def logMessage_def call_def Let_def
      send_def sendQueuedRequests_def new_client_def setLogging_def)

lemma assign_fold_absent:
  "map_of kvs k = None \<Longrightarrow>
   map_of (fold (\<lambda>(k, v) t. if k = ''__proto__'' then t else AList.update k v t) kvs t) k = map_of t k"
proof (induction kvs arbitrary: t)
  case Nil
  then show ?case by simp
next
  case (Cons kv kvs)
  obtain k' v' where kv: "kv = (k', v')" by (cases kv)
  from Cons.prems kv have ne: "k' \<noteq> k" and rest: "map_of kvs k = None"
    by (auto split: if_splits)
  show ?case
    using Cons.IH [OF rest] ne kv by (simp add: update_conv')
qed

lemma assign_fold_present:
  "distinct (map fst kvs) \<Longrightarrow> map_of kvs k = Some v \<Longrightarrow> k \<noteq> ''__proto__'' \<Longrightarrow>
   map_of (fold (\<lambda>(k, v) t. if k = ''__proto__'' then t else AList.update k v t) kvs t) k = Some v"
proof (induction kvs arbitrary: t)
  case Nil
  then show ?case by simp
next
  case (Cons kv kvs)
  obtain k' v' where kv: "kv = (k', v')" by (cases kv)
  show ?case
  proof (cases "k' = k")
    case True
    with Cons.prems kv have v: "v' = v" and absent: "map_of kvs k = None"
      by (auto simp: map_of_eq_None_iff)
    show ?thesis
      using assign_fold_absent [OF absent] True v kv Cons.prems(3) by (simp add: update_conv')
  next
    case False
    with Cons.prems kv have "map_of kvs k = Some v" and "distinct (map fst kvs)"
      by auto
    then show ?thesis
      using Cons.IH [of _ ] Cons.prems(3) kv by simp
  qed
qed

lemma Object_assign_object:
  "distinct (map fst kvs) \<Longrightarrow> map_of kvs k = Some v \<Longrightarrow> k \<noteq> ''__proto__'' \<Longrightarrow>
   map_of (Object_assign target (JObj kvs)) k = Some v"
  "map_of kvs k = None \<Longrightarrow> map_of (Object_assign target (JObj kvs)) k = map_of target k"
  by (simp_all add: Object_assign_def assign_fold_present assign_fold_absent)

text \<open>
  Claim C5. A response for a pending call that has no truthy \<open>result\<close> and whose \<open>error\<close>
  is an object rejects the promise with a fresh error instance, created with the message
  \<open>Remote error\<close>, onto which the own fields of the remote error object have been
  copied: every field of the remote object (\<open>message\<close>, \<open>code\<close>, \<open>data\<close>, \<open>stack\<close> and any
  other, the prototype setter \<open>__proto__\<close> apart) reads on the rejection as the remote
  sent it, so \<open>.message\<close> is the remote's message; only when the remote object carries
  no \<open>message\<close> does \<open>Remote error\<close> remain.
\<close>

theorem remote_error_reconstruction:
  assumes "parse messageStr = Some message"
    and "truthy (get_prop message ''id'')"
    and "map_get (responsePromiseMap s) (get_prop message ''id'') = Some promise"
    and "\<not> truthy (get_prop message ''result'')"
    and "get_prop message ''error'' = JObj remote"
    and "distinct (map fst remote)"
  shows "effects (processMessage parse messageStr s) =
           effects (logMessage messageStr DReceive s) @
             [Reject promise (Object_assign (new_Error ''Remote error'') (JObj remote))]
       \<and> (\<forall>k v. map_of remote k = Some v \<and> k \<noteq> ''__proto__'' \<longrightarrow>
            map_of (Object_assign (new_Error ''Remote error'') (JObj remote)) k = Some v)
       \<and> (map_of remote ''message'' = None \<longrightarrow>
            map_of (Object_assign (new_Error ''Remote error'') (JObj remote)) ''message'' =
              Some (JStr ''Remote error''))"
proof -
  have "processMessage parse messageStr s =
      perform (Reject promise (Object_assign (new_Error ''Remote error'') (JObj remote)))
        (logMessage messageStr DReceive s)"
    using assms by (subst processMessage_pending [where message = message and promise = promise]) simp_all
  then have "effects (processMessage parse messageStr s) =
           effects (logMessage messageStr DReceive s) @
             [Reject promise (Object_assign (new_Error ''Remote error'') (JObj remote))]"
    by simp
  moreover have "\<forall>k v. map_of remote k = Some v \<and> k \<noteq> ''__proto__'' \<longrightarrow>
            map_of (Object_assign (new_Error ''Remote error'') (JObj remote)) k = Some v"
    using assms(6) by (simp add: Object_assign_object)
  moreover have "map_of remote ''message'' = None \<longrightarrow>
            map_of (Object_assign (new_Error ''Remote error'') (JObj remote)) ''message'' =
              Some (JStr ''Remote error'')"
    by (simp add: Object_assign_object new_Error_def)
  ultimately show ?thesis by blast
qed

theorem remote_error_reconstruction_witness:
  "effects (processMessage
      (\<lambda>t. Some (JObj [(''id'', JNum 1),
          (''error'', JObj [(''message'', JStr ''boom''), (''code'', JNum 7), (''stack'', JStr ''at fail'')])]))
      ''response''
      (snd (call (\<lambda>v. ''request'') ''fail'' (JArr []) (new_client False)))) =
   [Reject (Completion 1)
      [(''message'', JStr ''boom''), (''code'', JNum 7), (''stack'', JStr ''at fail'')]]"
  using remote_error_reconstruction
    [of "\<lambda>t. Some (JObj [(''id'', JNum 1),
          (''error'', JObj [(''message'', JStr ''boom''), (''code'', JNum 7), (''stack'', JStr ''at fail'')])])"
        "''response''"
        "JObj [(''id'', JNum 1),
          (''error'', JObj [(''message'', JStr ''boom''), (''code'', JNum 7), (''stack'', JStr ''at fail'')])]"
        "snd (call (\<lambda>v. ''request'') ''fail'' (JArr []) (new_client False))"
        "Completion 1"
        "[(''message'', JStr ''boom''), (''code'', JNum 7), (''stack'', JStr ''at fail'')]"]
  by (simp add: call_fields new_client_fields params_rejected_def logMessage_def call_def Let_def
      send_def sendQueuedRequests_def new_client_def setLogging_def Object_assign_def new_Error_def)

subsection \<open>The pending table after a response\<close>

text \<open>
  Claim C2 as stated fails on the code: after the response to request 1 has resolved its
  promise, id 1 is still in the pending table, and a second response with the same id
  calls \<open>resolve\<close> again; no \<open>'error'\<close> is emitted.
\<close>

theorem answered_id_stays_pending:
  "map_of (responsePromiseMap
      (processMessage (\<lambda>t. Some (JObj [(''id'', JNum 1), (''result'', JNum 42)])) ''response''
         (snd (call (\<lambda>v. ''request'') ''Echo'' (JArr [JNum 42]) (new_client False))))) 1
     = Some (Completion 1)
   \<and> effects
      (processMessage (\<lambda>t. Some (JObj [(''id'', JNum 1), (''result'', JNum 42)])) ''response''
        (processMessage (\<lambda>t. Some (JObj [(''id'', JNum 1), (''result'', JNum 42)])) ''response''
          (snd (call (\<lambda>v. ''request'') ''Echo'' (JArr [JNum 42]) (new_client False)))))
     = [Resolve (Completion 1) (JNum 42), Resolve (Completion 1) (JNum 42)]"
  by (simp add: processMessage_def call_def Let_def send_def sendQueuedRequests_def new_client_def
      setLogging_def params_rejected_def logMessage_def perform_def)

lemma processMessage_effects_depend:
  "responsePromiseMap t = responsePromiseMap s \<Longrightarrow> consoleLog t = consoleLog s \<Longrightarrow>
   \<exists>d. effects (processMessage pa str s) = effects s @ d \<and>
       effects (processMessage pa str t) = effects t @ d"
  by (simp add: processMessage_def Let_def logMessage_def emit_def split: option.splits)

text \<open>
  Claim C2, amended. \<open>processMessage\<close> never removes an id: in every branch it leaves the
  pending table as it was. A message delivered a second time is therefore handled
  exactly as the first time: the same effects (the same call of \<open>resolve\<close> or \<open>reject\<close>,
  or the same \<open>'error'\<close>) are appended once more.
\<close>

theorem processMessage_keeps_pending_table:
  "responsePromiseMap (processMessage parse messageStr s) = responsePromiseMap s
   \<and> (\<exists>d. effects (processMessage parse messageStr s) = effects s @ d
          \<and> effects (processMessage parse messageStr (processMessage parse messageStr s)) =
              effects s @ d @ d)"
proof -
  obtain d where d: "effects (processMessage parse messageStr s) = effects s @ d"
     "effects (processMessage parse messageStr (processMessage parse messageStr s)) =
        effects (processMessage parse messageStr s) @ d"
    using processMessage_effects_depend
      [of "processMessage parse messageStr s" s parse messageStr]
    by (auto simp: processMessage_fields)
  then show ?thesis by (simp add: processMessage_fields)
qed

theorem processMessage_keeps_pending_table_witness:
  "responsePromiseMap
      (processMessage (\<lambda>t. Some (JObj [(''id'', JNum 1), (''result'', JNum 42)])) ''response''
         (snd (call (\<lambda>v. ''request'') ''Echo'' (JArr [JNum 42]) (new_client False))))
     = [(1, Completion 1)]"
  using processMessage_keeps_pending_table
    [of "\<lambda>t. Some (JObj [(''id'', JNum 1), (''result'', JNum 42)])" "''response''"
        "snd (call (\<lambda>v. ''request'') ''Echo'' (JArr [JNum 42]) (new_client False))"]
  by (simp add: call_fields new_client_fields params_rejected_def)

subsection \<open>The parameter guard\<close>

lemma params_rejected_iff:
  "params_rejected p = (p \<noteq> JUndefined \<and> p \<noteq> JNull \<and> \<not> is_array p \<and> \<not> is_object p)"
  by (cases p) (simp_all add: params_rejected_def)

text \<open>
  For every method and every \<open>params\<close> that is neither absent, nor \<open>null\<close>, nor an array,
  nor an object (a number, a string, a boolean, a function), \<open>call\<close> and \<open>notify\<close> throw
  \<open>Params must be structured data (Array | Object)\<close> and leave the peer as it was: the
  id counter, the pending table, the queue and what the transport has observed are
  unchanged.
\<close>

lemma unstructured_params_throw:
  assumes "p \<noteq> JUndefined" and "p \<noteq> JNull" and "\<not> is_array p" and "\<not> is_object p"
  shows "call stringify m p s = (Inl ParamsNotStructured, s)
       \<and> notify stringify m p s = (Inl ParamsNotStructured, s)"
  using assms by (simp add: params_rejected_iff call_rejected notify_rejected)

text \<open>
  Claim C3, on the code: \<open>null\<close> is neither absent, nor an array, nor an object, yet the
  guard \<open>typeof params != 'object'\<close> lets it through. \<open>call\<close> and \<open>notify\<close> do not throw
  \<open>Params must be structured data (Array | Object)\<close> on it, and \<open>call\<close> allocates a
  request id and adds an entry to the pending table.
\<close>

theorem null_params_slip_through_guard:
  "JNull \<noteq> JUndefined \<and> \<not> is_array JNull \<and> \<not> is_object JNull
   \<and> fst (call stringify m JNull s) \<noteq> Inl ParamsNotStructured
   \<and> fst (notify stringify m JNull s) \<noteq> Inl ParamsNotStructured
   \<and> nextMessageId (snd (call stringify m JNull s)) = nextMessageId s + 1
   \<and> map_of (responsePromiseMap (snd (call stringify m JNull s))) (nextMessageId s + 1) =
       Some (Completion (nextMessageId s + 1))"
  by (simp add: call_fields notify_fields params_rejected_def update_conv')

theorem null_params_slip_through_guard_witness:
  "fst (call (\<lambda>v. ''request'') ''m'' JNull (new_client False)) \<noteq> Inl ParamsNotStructured
   \<and> nextMessageId (snd (call (\<lambda>v. ''request'') ''m'' JNull (new_client False))) = 1
   \<and> responsePromiseMap (snd (call (\<lambda>v. ''request'') ''m'' JNull (new_client False))) =
       [(1, Completion 1)]
   \<and> requestQueue (snd (call (\<lambda>v. ''request'') ''m'' JNull (new_client False))) = [''request'']"
  using null_params_slip_through_guard [of "\<lambda>v. ''request''" "''m''" "new_client False"]
  by (simp add: call_fields new_client_fields params_rejected_def)

text \<open>
  Claim C10. \<open>null\<close> is neither absent, nor an array, nor an object, but its \<open>typeof\<close> is
  \<open>'object'\<close>, so \<open>call\<close> and \<open>notify\<close> accept it: neither throws, and the message that is
  serialized carries \<open>params\<close> equal to \<open>null\<close>; it is handed to the transport when the
  peer is connected and appended to the queue when it is not.
\<close>

theorem null_params_are_sent:
  "JNull \<noteq> JUndefined \<and> \<not> is_array JNull \<and> \<not> is_object JNull
   \<and> typeof JNull = TObject
   \<and> fst (call stringify m JNull s) = Inr (Completion (nextMessageId s + 1))
   \<and> fst (notify stringify m JNull s) = Inr ()
   \<and> get_prop (request (nextMessageId s + 1) m JNull) ''params'' = JNull
   \<and> get_prop (notification m JNull) ''params'' = JNull
   \<and> (if connected s
       then transmitted (snd (call stringify m JNull s)) =
              transmitted s @ requestQueue s @ [stringify (request (nextMessageId s + 1) m JNull)]
          \<and> transmitted (snd (notify stringify m JNull s)) =
              transmitted s @ requestQueue s @ [stringify (notification m JNull)]
       else requestQueue (snd (call stringify m JNull s)) =
              requestQueue s @ [stringify (request (nextMessageId s + 1) m JNull)]
          \<and> requestQueue (snd (notify stringify m JNull s)) =
              requestQueue s @ [stringify (notification m JNull)])"
  by (simp add: call_fields notify_fields params_rejected_def request_def notification_def)

theorem null_params_are_sent_witness:
  "transmitted (snd (call (\<lambda>v. if get_prop v ''params'' = JNull then ''null params'' else ''other'')
      ''m'' JNull (didConnect (new_client False)))) = [''null params'']"
  using null_params_are_sent
    [of "\<lambda>v. if get_prop v ''params'' = JNull then ''null params'' else ''other''" "''m''"
        "didConnect (new_client False)"]
  by (simp add: didConnect_fields new_client_fields request_def)

section \<open>Properties of the component registry\<close>

lemma name_in_empty: "\<not> name_in [] []"
  by (simp add: name_in_def Object_prototype_keys_def)

lemma register_fresh:
  assumes "first_tag (componentNameTag reg) (f # ancestors f) = None"
    and "\<not> name_in n (registeredComponents reg)"
  shows "registerComponent ancestors n (JFun f) reg =
     (Inr (), reg\<lparr>componentNameTag := AList.update f n (componentNameTag reg),
                 registeredComponents := AList.update n (JFun f) (registeredComponents reg)\<rparr>)"
  using assms by (simp add: registerComponent_def PrivateHelpers_registerComponent_def)

lemma first_tag_own: "map_of tags f = Some n \<Longrightarrow> first_tag tags (f # fs) = Some n"
  by simp

lemma register_tagged:
  "symbol_in ancestors reg klass = Some True \<Longrightarrow>
     registerComponent ancestors n klass reg = (Inl ApiAlreadyRegistered, reg)"
  by (simp add: registerComponent_def PrivateHelpers_registerComponent_def)

lemma register_known_name:
  "name_in n (registeredComponents reg) \<Longrightarrow>
     (\<exists>e. fst (registerComponent ancestors n klass reg) = Inl e)
     \<and> snd (registerComponent ancestors n klass reg) = reg"
  by (simp add: registerComponent_def PrivateHelpers_registerComponent_def
      split: option.splits bool.splits)

lemma register_not_a_class:
  "typeof klass \<noteq> TFunction \<Longrightarrow>
     (\<exists>e. fst (registerComponent ancestors n klass reg) = Inl e)
     \<and> snd (registerComponent ancestors n klass reg) = reg"
  by (cases klass)
     (simp_all add: registerComponent_def PrivateHelpers_registerComponent_def
        split: option.splits bool.splits)

lemma register_success_named:
  "n \<noteq> [] \<Longrightarrow> fst (registerComponent ancestors n (JFun f) reg) = Inr () \<Longrightarrow>
     getComponentName ancestors (snd (registerComponent ancestors n (JFun f) reg)) (JFun f) = Inr (Some n)
     \<and> map_of (registeredComponents (snd (registerComponent ancestors n (JFun f) reg))) n = Some (JFun f)"
  by (auto simp: registerComponent_def PrivateHelpers_registerComponent_def update_conv'
      split: if_splits option.splits bool.splits)

text \<open>
  Claim C6, on the code: registering a class under the empty name succeeds, tags the
  class and inserts it into the registry, but \<open>getComponentName\<close> then answers \<open>null\<close> and
  not the name, because \<open>klass[componentNameSymbol] || null\<close> treats the empty string as
  missing.
\<close>

theorem empty_name_is_not_returned:
  assumes "first_tag (componentNameTag reg) (f # ancestors f) = None"
    and "\<not> name_in [] (registeredComponents reg)"
  shows "fst (registerComponent ancestors [] (JFun f) reg) = Inr ()
       \<and> map_of (registeredComponents (snd (registerComponent ancestors [] (JFun f) reg))) [] = Some (JFun f)
       \<and> map_of (componentNameTag (snd (registerComponent ancestors [] (JFun f) reg))) f = Some []
       \<and> getComponentName ancestors (snd (registerComponent ancestors [] (JFun f) reg)) (JFun f) = Inr None"
  using assms by (simp add: register_fresh update_conv')

theorem empty_name_is_not_returned_witness:
  "fst (registerComponent (\<lambda>f. []) [] (JFun 0) empty_registry) = Inr ()
   \<and> getComponentName (\<lambda>f. []) (snd (registerComponent (\<lambda>f. []) [] (JFun 0) empty_registry)) (JFun 0)
       = Inr None"
  using empty_name_is_not_returned [of empty_registry 0 "\<lambda>f. []"]
  by (simp add: empty_registry_def name_in_empty)

section \<open>Properties of the component system\<close>

lemma steps_append [simp]: "steps (xs @ ys) = steps xs @ steps ys"
  by (simp add: steps_def)

lemma steps_simps [simp]:
  "steps [] = []"
  "steps (e # es) = (if is_step e then e # steps es else steps es)"
  by (simp_all add: steps_def)


lemma system_perform [simp]:
  "componentInstances (perform e s) = componentInstances s"
  "rejectionHandlers (perform e s) = rejectionHandlers s"
  by (simp_all add: perform_def)

lemma system_client_ops [simp]:
  "componentInstances (logMessage m d s) = componentInstances s"
  "componentInstances (sendMessage m s) = componentInstances s"
  "componentInstances (emit ev as s) = componentInstances s"
  by (simp_all add: logMessage_def sendMessage_def emit_def)

lemma steps_client_ops [simp]:
  "steps (effects (logMessage m d s)) = steps (effects s)"
  "steps (effects (sendMessage m s)) = steps (effects s) @ [SendMessage m]"
  by (simp_all add: logMessage_def sendMessage_def)

lemma catch_rejection_completes:
  assumes "hook_completes h"
  shows "fst (catch_rejection kind c h s) = Inr ()
    \<and> steps (effects (snd (catch_rejection kind c h s))) = steps (effects s)
    \<and> componentInstances (snd (catch_rejection kind c h s)) = componentInstances s
    \<and> requestQueue (snd (catch_rejection kind c h s)) = requestQueue s
    \<and> connected (snd (catch_rejection kind c h s)) = connected s"
proof (cases h)
  case (HookThrows e)
  with assms show ?thesis by simp
next
  case (HookReturnsPromise r)
  then show ?thesis
    by (cases r) (simp_all add: catch_rejection_def Let_def)
next
  case (HookReturns v)
  with assms show ?thesis
    by (cases v) (auto simp: catch_rejection_def split: option.splits jsval.splits)
qed

lemma unmountComponent_completes:
  assumes "case componentWillUnmount c of None \<Rightarrow> True | Some h \<Rightarrow> hook_completes h"
  shows "fst (unmountComponent c s) = Inr ()"
    and "steps (effects (snd (unmountComponent c s))) =
           steps (effects s) @ hook_calls WillUnmount componentWillUnmount [c]"
    and "componentInstances (snd (unmountComponent c s)) = componentInstances s"
    and "requestQueue (snd (unmountComponent c s)) = requestQueue s"
    and "connected (snd (unmountComponent c s)) = connected s"
  using assms
  by (auto simp: unmountComponent_def hook_calls_def catch_rejection_completes
      split: option.splits)

lemma mountComponent_completes:
  assumes "case componentDidMount c of None \<Rightarrow> True | Some h \<Rightarrow> hook_completes h"
  shows "fst (mountComponent c s) = Inr ()"
    and "steps (effects (snd (mountComponent c s))) =
           steps (effects s) @ hook_calls DidMount componentDidMount [c]"
    and "componentInstances (snd (mountComponent c s)) = componentInstances s"
    and "requestQueue (snd (mountComponent c s)) = requestQueue s"
    and "connected (snd (mountComponent c s)) = connected s"
  using assms
  by (auto simp: mountComponent_def hook_calls_def catch_rejection_completes
      split: option.splits)

lemma hook_calls_Cons:
  "hook_calls kind hook (c # cs) = hook_calls kind hook [c] @ hook_calls kind hook cs"
  by (simp add: hook_calls_def)

lemma forEach_unmount_completes:
  "hooks_complete componentWillUnmount cs \<Longrightarrow>
   fst (forEach unmountComponent cs s) = Inr ()
   \<and> steps (effects (snd (forEach unmountComponent cs s))) =
       steps (effects s) @ hook_calls WillUnmount componentWillUnmount cs
   \<and> componentInstances (snd (forEach unmountComponent cs s)) = componentInstances s
   \<and> requestQueue (snd (forEach unmountComponent cs s)) = requestQueue s
   \<and> connected (snd (forEach unmountComponent cs s)) = connected s"
proof (induction cs arbitrary: s)
  case Nil
  then show ?case by (simp add: hook_calls_def)
next
  case (Cons c cs)
  from Cons.prems have c: "case componentWillUnmount c of None \<Rightarrow> True | Some h \<Rightarrow> hook_completes h"
    and cs: "hooks_complete componentWillUnmount cs"
    by (simp_all add: hooks_complete_def)
  obtain s1 where s1: "unmountComponent c s = (Inr (), s1)"
    using unmountComponent_completes(1) [OF c, of s] by (cases "unmountComponent c s") auto
  have "snd (unmountComponent c s) = s1" using s1 by simp
  then have one: "steps (effects s1) = steps (effects s) @ hook_calls WillUnmount componentWillUnmount [c]"
    "componentInstances s1 = componentInstances s" "requestQueue s1 = requestQueue s"
    "connected s1 = connected s"
    using unmountComponent_completes(2-5) [OF c, of s] by simp_all
  show ?case
    using Cons.IH [OF cs, of s1] s1 one
    by (simp add: hook_calls_Cons [of _ _ c cs])
qed

lemma forEach_mount_completes:
  "hooks_complete componentDidMount cs \<Longrightarrow>
   fst (forEach mountComponent cs s) = Inr ()
   \<and> steps (effects (snd (forEach mountComponent cs s))) =
       steps (effects s) @ hook_calls DidMount componentDidMount cs
   \<and> componentInstances (snd (forEach mountComponent cs s)) = componentInstances s
   \<and> requestQueue (snd (forEach mountComponent cs s)) = requestQueue s
   \<and> connected (snd (forEach mountComponent cs s)) = connected s"
proof (induction cs arbitrary: s)
  case Nil
  then show ?case by (simp add: hook_calls_def)
next
  case (Cons c cs)
  from Cons.prems have c: "case componentDidMount c of None \<Rightarrow> True | Some h \<Rightarrow> hook_completes h"
    and cs: "hooks_complete componentDidMount cs"
    by (simp_all add: hooks_complete_def)
  obtain s1 where s1: "mountComponent c s = (Inr (), s1)"
    using mountComponent_completes(1) [OF c, of s] by (cases "mountComponent c s") auto
  have "snd (mountComponent c s) = s1" using s1 by simp
  then have one: "steps (effects s1) = steps (effects s) @ hook_calls DidMount componentDidMount [c]"
    "componentInstances s1 = componentInstances s" "requestQueue s1 = requestQueue s"
    "connected s1 = connected s"
    using mountComponent_completes(2-5) [OF c, of s] by simp_all
  show ?case
    using Cons.IH [OF cs, of s1] s1 one
    by (simp add: hook_calls_Cons [of _ _ c cs])
qed

lemma flush_fold_steps:
  "steps (effects (fold (\<lambda>m t. sendMessage m (logMessage m DSend t)) q s)) =
     steps (effects s) @ map SendMessage q"
  by (induction q arbitrary: s) simp_all

lemma steps_effects_send:
  "steps (effects (send st msg s)) =
     steps (effects s) @ (if connected s then map SendMessage (requestQueue s @ [st msg]) else [])"
  by (simp add: send_def sendQueuedRequests_def flush_fold_steps)

lemma flush_fold_instances:
  "componentInstances (fold (\<lambda>m t. sendMessage m (logMessage m DSend t)) q s) =
     componentInstances s"
  by (induction q arbitrary: s) simp_all

lemma system_send [simp]:
  "componentInstances (send st msg s) = componentInstances s"
  by (simp add: send_def sendQueuedRequests_def flush_fold_instances)

lemma notify_absent:
  "notify st m JUndefined s = (Inr (), send st (notification m JUndefined) s)"
  by (simp add: notify_def params_rejected_def)

text \<open>
  When every hook an instance defines completes, \<open>unmount\<close> returns normally and performs
  these steps in this order: the \<open>SIGKILL\<close> notification is submitted (handed to the
  transport after whatever is queued when the peer is connected, appended to the queue
  when it is not), \<open>systemWillUnmount\<close> is emitted, \<open>unmountComponent\<close> runs on every
  instance in the order of the instance map, the map is cleared, the worker is
  terminated, \<open>systemDidUnmount\<close> is emitted. \<open>enable\<close> emits \<open>systemWillEnable\<close>, then
  mounts the instances in insertion order, then calls the server peer's \<open>enable\<close>, and
  leaves the instance map as it was.
\<close>

lemma lifecycle_order:
  assumes "hooks_complete componentWillUnmount (map snd (componentInstances s))"
    and "hooks_complete componentDidMount (map snd (componentInstances s))"
  shows "fst (unmount stringify s) = Inr ()
    \<and> snd (unmount stringify s) =
        emit (JStr ''systemDidUnmount'') []
          (worker_terminate
            ((snd (forEach unmountComponent (map snd (componentInstances s))
                (emit (JStr ''systemWillUnmount'') []
                  (snd (notify stringify ''SIGKILL'' JUndefined s)))))
             \<lparr>componentInstances := []\<rparr>))
    \<and> steps (effects (snd (unmount stringify s))) =
        steps (effects s) @
        (if connected s
         then map SendMessage (requestQueue s @ [stringify (notification ''SIGKILL'' JUndefined)])
         else []) @
        [Emit (JStr ''systemWillUnmount'') []] @
        hook_calls WillUnmount componentWillUnmount (map snd (componentInstances s)) @
        [WorkerTerminate, Emit (JStr ''systemDidUnmount'') []]
    \<and> requestQueue (snd (unmount stringify s)) =
        (if connected s then []
         else requestQueue s @ [stringify (notification ''SIGKILL'' JUndefined)])
    \<and> componentInstances (snd (unmount stringify s)) = []
    \<and> fst (enable s) = Inr ()
    \<and> steps (effects (snd (enable s))) =
        steps (effects s) @
        [Emit (JStr ''systemWillEnable'') []] @
        hook_calls DidMount componentDidMount (map snd (componentInstances s)) @
        [ServerEnable]
    \<and> componentInstances (snd (enable s)) = componentInstances s"
proof -
  let ?cs = "map snd (componentInstances s)"
  let ?s1 = "send stringify (notification ''SIGKILL'' JUndefined) s"
  let ?s2 = "emit (JStr ''systemWillUnmount'') [] ?s1"
  let ?s3 = "snd (forEach unmountComponent ?cs ?s2)"
  have cs2: "map snd (componentInstances ?s2) = ?cs"
    by (simp add: emit_def)
  have u: "fst (forEach unmountComponent ?cs ?s2) = Inr ()"
    "steps (effects ?s3) = steps (effects ?s2) @ hook_calls WillUnmount componentWillUnmount ?cs"
    "componentInstances ?s3 = componentInstances ?s2" "requestQueue ?s3 = requestQueue ?s2"
    using forEach_unmount_completes [OF assms(1), of ?s2] by simp_all
  obtain s3 where s3: "forEach unmountComponent ?cs ?s2 = (Inr (), s3)"
    using u(1) by (cases "forEach unmountComponent ?cs ?s2") (auto simp: old.unit.exhaust)
  have s3': "?s3 = s3" using s3 by simp
  have un: "unmount stringify s =
      (Inr (), emit (JStr ''systemDidUnmount'') []
         (worker_terminate (?s3\<lparr>componentInstances := []\<rparr>)))"
    unfolding s3' by (simp add: unmount_def notify_absent Let_def cs2 s3)
  let ?e1 = "emit (JStr ''systemWillEnable'') [] s"
  have m: "fst (forEach mountComponent ?cs ?e1) = Inr ()"
    "steps (effects (snd (forEach mountComponent ?cs ?e1))) =
        steps (effects ?e1) @ hook_calls DidMount componentDidMount ?cs"
    "componentInstances (snd (forEach mountComponent ?cs ?e1)) = componentInstances ?e1"
    using forEach_mount_completes [OF assms(2), of ?e1] by simp_all
  obtain e2 where e2: "forEach mountComponent ?cs ?e1 = (Inr (), e2)"
    using m(1) by (cases "forEach mountComponent ?cs ?e1") (auto simp: old.unit.exhaust)
  have e2': "snd (forEach mountComponent ?cs ?e1) = e2" using e2 by simp
  have en: "enable s = (Inr (), server_enable (snd (forEach mountComponent ?cs ?e1)))"
    unfolding e2' by (simp add: enable_def Let_def e2)
  show ?thesis
    unfolding un en
    using u(2-4) m(2,3)
    by (simp add: notify_absent worker_terminate_def server_enable_def steps_effects_send
        send_fields)
qed


lemma lifecycle_order_example:
  "steps (effects (snd (unmount (\<lambda>v. ''SIGKILL notification'')
      (didConnect ((new_system False)\<lparr>componentInstances :=
         [(''Foo'', \<lparr>instance_id = 0, componentDidMount = Some (HookReturns JUndefined),
                     componentWillUnmount = Some (HookReturnsPromise None)\<rparr>)]\<rparr>))))) =
     [SendMessage ''SIGKILL notification'', Emit (JStr ''systemWillUnmount'') [],
      HookCall WillUnmount 0, WorkerTerminate, Emit (JStr ''systemDidUnmount'') []]
   \<and> steps (effects (snd (enable
      (didConnect ((new_system False)\<lparr>componentInstances :=
         [(''Foo'', \<lparr>instance_id = 0, componentDidMount = Some (HookReturns JUndefined),
                     componentWillUnmount = Some (HookReturnsPromise None)\<rparr>)]\<rparr>))))) =
     [Emit (JStr ''systemWillEnable'') [], HookCall DidMount 0, ServerEnable]"
  using lifecycle_order
    [of "didConnect ((new_system False)\<lparr>componentInstances :=
         [(''Foo'', \<lparr>instance_id = 0, componentDidMount = Some (HookReturns JUndefined),
                     componentWillUnmount = Some (HookReturnsPromise None)\<rparr>)]\<rparr>)"
        "\<lambda>v. ''SIGKILL notification''"]
  by (simp add: hooks_complete_def hook_calls_def didConnect_def sendQueuedRequests_def
      new_system_def setLogging_def notify_absent send_def emit_def perform_def
      sendMessage_def logMessage_def unmountComponent_def mountComponent_def
      catch_rejection_def worker_terminate_def server_enable_def)

subsection \<open>Hooks that fail\<close>

lemma forEach_first_throws:
  "fst (f c s) = Inl e \<Longrightarrow> forEach f (c # cs) s = (Inl e, snd (f c s))"
  by (cases "f c s") auto

lemma report_fold:
  "effects (fold (\<lambda>(kind, i, reason) t. perform (ConsoleError kind i reason) t) hs s) =
     effects s @ map (\<lambda>(kind, i, reason). ConsoleError kind i reason) hs"
  by (induction hs arbitrary: s) (simp_all split: prod.splits)

lemma effects_runRejectionHandlers:
  "effects (runRejectionHandlers s) =
     effects s @ map (\<lambda>(kind, i, reason). ConsoleError kind i reason) (rejectionHandlers s)"
  by (simp add: runRejectionHandlers_def report_fold)

lemma rejected_promise_is_reported:
  assumes "componentWillUnmount c = Some (HookReturnsPromise (Some reason))"
  shows "fst (unmountComponent c s) = Inr ()"
    and "ConsoleError WillUnmount (instance_id c) reason \<in>
           set (effects (runRejectionHandlers (snd (unmountComponent c s))))"
  using assms
  by (simp_all add: unmountComponent_def catch_rejection_def Let_def effects_runRejectionHandlers)

text \<open>
  Claim C7, on the code: a hook that throws synchronously is not caught. The exception
  leaves \<open>unmountComponent\<close> and then \<open>unmount\<close>, which stops after the hook's call: the
  instance map is not cleared, the worker is not terminated and \<open>systemDidUnmount\<close> is
  not emitted. Only the rejection of a promise that the hook returned is swallowed and
  reported (\<open>rejected_promise_is_reported\<close>).
\<close>

theorem throwing_hook_aborts_unmount:
  assumes "componentInstances s = (n, c) # others"
    and "componentWillUnmount c = Some (HookThrows e)"
  shows "fst (unmountComponent c s) = Inl (Thrown e)
    \<and> fst (unmount stringify s) = Inl (Thrown e)
    \<and> componentInstances (snd (unmount stringify s)) = (n, c) # others
    \<and> steps (effects (snd (unmount stringify s))) =
        steps (effects s) @
        (if connected s
         then map SendMessage (requestQueue s @ [stringify (notification ''SIGKILL'' JUndefined)])
         else []) @
        [Emit (JStr ''systemWillUnmount'') [], HookCall WillUnmount (instance_id c)]"
proof -
  let ?s2 = "emit (JStr ''systemWillUnmount'') []
      (send stringify (notification ''SIGKILL'' JUndefined) s)"
  have one: "\<And>t. unmountComponent c t =
      (Inl (Thrown e), perform (HookCall WillUnmount (instance_id c)) t)"
    using assms(2) by (simp add: unmountComponent_def catch_rejection_def)
  have all: "forEach unmountComponent (map snd (componentInstances s)) ?s2 =
      (Inl (Thrown e), perform (HookCall WillUnmount (instance_id c)) ?s2)"
    using assms(1) by (simp add: one)
  have un: "unmount stringify s =
      (Inl (Thrown e), perform (HookCall WillUnmount (instance_id c)) ?s2)"
    by (simp add: unmount_def notify_absent Let_def all)
  show ?thesis
    unfolding un using assms(1) by (simp add: one steps_effects_send)
qed

theorem throwing_hook_aborts_unmount_witness:
  "fst (unmount (\<lambda>v. ''SIGKILL notification'')
      ((new_system False)\<lparr>componentInstances :=
         [(''Foo'', \<lparr>instance_id = 0, componentDidMount = None,
                     componentWillUnmount = Some (HookThrows (JStr ''boom''))\<rparr>)]\<rparr>))
     = Inl (Thrown (JStr ''boom''))
   \<and> effects (snd (unmount (\<lambda>v. ''SIGKILL notification'')
      ((new_system False)\<lparr>componentInstances :=
         [(''Foo'', \<lparr>instance_id = 0, componentDidMount = None,
                     componentWillUnmount = Some (HookThrows (JStr ''boom''))\<rparr>)]\<rparr>)))
     = [Emit (JStr ''systemWillUnmount'') [], HookCall WillUnmount 0]"
  using throwing_hook_aborts_unmount
    [of "(new_system False)\<lparr>componentInstances :=
         [(''Foo'', \<lparr>instance_id = 0, componentDidMount = None,
                     componentWillUnmount = Some (HookThrows (JStr ''boom''))\<rparr>)]\<rparr>"
        "''Foo''"
        "\<lparr>instance_id = 0, componentDidMount = None,
          componentWillUnmount = Some (HookThrows (JStr ''boom''))\<rparr>"
        "[]" "JStr ''boom''" "\<lambda>v. ''SIGKILL notification''"]
  by (simp add: new_system_def setLogging_def unmount_def notify_absent send_def
      sendQueuedRequests_def emit_def perform_def unmountComponent_def catch_rejection_def)

section \<open>Properties of the proxy\<close>

lemma target_get_update:
  "target_get (AList.update p v target) q = (if q = p then Some v else target_get target q)"
  by (simp add: target_get_def update_conv')

lemma target_get_proto: "target_get target ''__proto__'' \<noteq> None"
  by (simp add: target_get_def split: option.splits)

lemma proxy_get_hit:
  assumes "r < length (heap w)" and "heap w ! r = Namespace prefix target"
    and "target_get target prop = Some v"
  shows "proxy_get r prop w = (Inr v, w)"
  using assms by (simp add: proxy_get_def)

lemma proxy_get_prototype:
  assumes "r < length (heap w)" and "heap w ! r = Namespace prefix target"
    and "target_get target ''prototype'' = None"
  shows "proxy_get r ''prototype'' w = (Inr ObjectPrototype, w)"
  using assms by (simp add: proxy_get_def)

lemma proxy_get_miss:
  assumes "r < length (heap w)" and "heap w ! r = Namespace prefix target"
    and "target_get target prop = None" and "prop \<noteq> ''prototype''"
  shows "proxy_get r prop w = (Inl ProxyRequired, w) \<or>
     (\<exists>obj. proxy_get r prop w =
        (Inr (Ref (length (heap w))),
         w\<lparr>heap := (heap w @ [obj])
            [r := Namespace prefix (AList.update prop (Ref (length (heap w))) target)]\<rparr>))"
proof -
  have np: "prop \<noteq> ''__proto__''"
    using assms(3) target_get_proto [of target] by auto
  show ?thesis
  proof (cases prefix)
    case None
    then show ?thesis
      using assms np
      by (auto simp: proxy_get_def api_def alloc_def target_set_def nth_append)
  next
    case (Some pre)
    then show ?thesis
      using assms np
      by (auto simp: proxy_get_def alloc_def target_set_def nth_append Let_def)
  qed
qed

lemma proxy_get_Inr_namespace:
  assumes "proxy_get r prop w = (Inr v, w1)"
  shows "r < length (heap w) \<and> (\<exists>prefix target. heap w ! r = Namespace prefix target)"
proof -
  have r: "r < length (heap w)"
    using assms by (cases "r < length (heap w)") (simp_all add: proxy_get_def)
  moreover have "\<exists>prefix target. heap w ! r = Namespace prefix target"
    using assms r by (cases "heap w ! r") (simp_all add: proxy_get_def)
  ultimately show ?thesis by simp
qed

lemma proxy_get_cases:
  assumes "proxy_get r prop w = (Inr v, w1)"
  obtains (settled) prefix target where "r < length (heap w)"
      and "heap w ! r = Namespace prefix target" and "w1 = w"
      and "target_get target prop = Some v \<or>
           (target_get target prop = None \<and> prop = ''prototype'' \<and> v = ObjectPrototype)"
  | (created) prefix target obj where "r < length (heap w)"
      and "heap w ! r = Namespace prefix target"
      and "target_get target prop = None" and "prop \<noteq> ''prototype''"
      and "v = Ref (length (heap w))"
      and "w1 = w\<lparr>heap := (heap w @ [obj])
            [r := Namespace prefix (AList.update prop (Ref (length (heap w))) target)]\<rparr>"
proof -
  from proxy_get_Inr_namespace [OF assms] obtain prefix target
    where r: "r < length (heap w)" and ns: "heap w ! r = Namespace prefix target"
    by blast
  show thesis
  proof (cases "target_get target prop")
    case (Some v')
    with assms proxy_get_hit [OF r ns Some] settled [OF r ns] show thesis by simp
  next
    case None
    show thesis
    proof (cases "prop = ''prototype''")
      case True
      with assms None proxy_get_prototype [OF r ns] settled [OF r ns] show thesis by simp
    next
      case False
      from proxy_get_miss [OF r ns None False] assms
      obtain obj where "proxy_get r prop w =
        (Inr (Ref (length (heap w))),
         w\<lparr>heap := (heap w @ [obj])
            [r := Namespace prefix (AList.update prop (Ref (length (heap w))) target)]\<rparr>)"
        by auto
      with assms have "v = Ref (length (heap w))"
        and "w1 = w\<lparr>heap := (heap w @ [obj])
            [r := Namespace prefix (AList.update prop (Ref (length (heap w))) target)]\<rparr>"
        by auto
      then show thesis by (rule created [OF r ns None False])
    qed
  qed
qed

lemma proxy_get_client:
  assumes "proxy_get r prop w = (Inr v, w1)"
  shows "effects w1 = effects w \<and> requestQueue w1 = requestQueue w \<and> connected w1 = connected w
   \<and> nextMessageId w1 = nextMessageId w \<and> responsePromiseMap w1 = responsePromiseMap w
   \<and> consoleLog w1 = consoleLog w"
  using assms by (cases rule: proxy_get_cases) simp_all

lemma proxy_get_again:
  assumes "proxy_get r prop w = (Inr v, w1)"
  shows "proxy_get r prop w1 = (Inr v, w1)"
  using assms
proof (cases rule: proxy_get_cases)
  case (settled prefix target)
  with assms show ?thesis by simp
next
  case (created prefix target obj)
  have "r < length (heap w1)" using created by simp
  moreover have "heap w1 ! r = Namespace prefix (AList.update prop v target)"
    using created by (simp add: nth_list_update)
  moreover have "target_get (AList.update prop v target) prop = Some v"
    by (simp add: target_get_update)
  ultimately show ?thesis by (rule proxy_get_hit)
qed

lemma proxy_get_stable:
  assumes fixed: "proxy_get r prop w = (Inr v, w)"
    and other: "proxy_get r' prop' w = (Inr v', w')"
  shows "proxy_get r prop w' = (Inr v, w')"
  using fixed
proof (cases rule: proxy_get_cases)
  case (created prefix target obj)
  then have "length (heap w) = length ((heap w @ [obj])
            [r := Namespace prefix (AList.update prop (Ref (length (heap w))) target)])"
    by (metis world.select_convs(1) world.surjective world.update_convs(1))
  then show ?thesis by simp
next
  case (settled prefix target)
  note s = settled
  from other show ?thesis
  proof (cases rule: proxy_get_cases)
    case (settled prefix' target')
    with fixed show ?thesis by simp
  next
    case (created prefix' target' obj)
    have len: "r < length (heap w')" using created s by simp
    show ?thesis
    proof (cases "r' = r")
      case False
      then have "heap w' ! r = Namespace prefix target"
        using created s by (simp add: nth_list_update nth_append)
      with len s(4) show ?thesis
        by (auto intro: proxy_get_hit proxy_get_prototype)
    next
      case True
      with created s have same: "prefix' = prefix" "target' = target" by simp_all
      have ne: "prop \<noteq> prop'"
        using created(3,4) s(4) same by auto
      have at: "heap w' ! r = Namespace prefix (AList.update prop' (Ref (length (heap w))) target)"
        using created s True same by (simp add: nth_list_update)
      have tg: "target_get (AList.update prop' (Ref (length (heap w))) target) prop =
          target_get target prop"
        using ne by (simp add: target_get_update)
      from s(4) show ?thesis
      proof
        assume "target_get target prop = Some v"
        with tg show ?thesis by (intro proxy_get_hit [OF len at]) simp
      next
        assume "target_get target prop = None \<and> prop = ''prototype'' \<and> v = ObjectPrototype"
        then have p: "prop = ''prototype''" "v = ObjectPrototype"
          and "target_get (AList.update prop' (Ref (length (heap w))) target) ''prototype'' = None"
          using tg by auto
        then show ?thesis using proxy_get_prototype [OF len at] by simp
      qed
    qed
  qed
qed


text \<open>
  Claim C9. A property read on a namespace of \<open>api()\<close> that returns a value returns the
  identical value when it is repeated, and the repeated read changes nothing at all: no
  object is created, no listener is registered, no call or notification is issued. The
  first read changes nothing of the peer either (it only fills the cache): the effects,
  the queue, the id counter and the pending table stay as they were. When the value is
  a nested namespace, reading a property of it and then repeating the whole path yields
  the same namespace and the same inner value again (\<open>root.Foo.bar === root.Foo.bar\<close>).
  The reads of \<open>__proto__\<close> and \<open>prototype\<close> answer the shared base prototype, which is
  the identical value each time although \<open>prototype\<close> is not written to the cache.
\<close>

theorem proxy_property_caching:
  assumes "proxy_get r prop w = (Inr v, w1)"
  shows "proxy_get r prop w1 = (Inr v, w1)
    \<and> effects w1 = effects w \<and> requestQueue w1 = requestQueue w
    \<and> nextMessageId w1 = nextMessageId w \<and> responsePromiseMap w1 = responsePromiseMap w
    \<and> (\<forall>n prop' v' w2. v = Ref n \<and> proxy_get n prop' w1 = (Inr v', w2) \<longrightarrow>
          proxy_get r prop w2 = (Inr (Ref n), w2) \<and> proxy_get n prop' w2 = (Inr v', w2)
          \<and> effects w2 = effects w \<and> requestQueue w2 = requestQueue w
          \<and> nextMessageId w2 = nextMessageId w \<and> responsePromiseMap w2 = responsePromiseMap w)"
proof -
  have again: "proxy_get r prop w1 = (Inr v, w1)"
    using assms by (rule proxy_get_again)
  have client1: "effects w1 = effects w \<and> requestQueue w1 = requestQueue w
    \<and> nextMessageId w1 = nextMessageId w \<and> responsePromiseMap w1 = responsePromiseMap w"
    using proxy_get_client [OF assms] by simp
  have nested: "proxy_get r prop w2 = (Inr (Ref n), w2) \<and> proxy_get n prop' w2 = (Inr v', w2)
          \<and> effects w2 = effects w \<and> requestQueue w2 = requestQueue w
          \<and> nextMessageId w2 = nextMessageId w \<and> responsePromiseMap w2 = responsePromiseMap w"
    if "v = Ref n" and inner: "proxy_get n prop' w1 = (Inr v', w2)" for n prop' v' w2
  proof -
    have "proxy_get r prop w2 = (Inr v, w2)"
      using again inner by (rule proxy_get_stable)
    moreover have "proxy_get n prop' w2 = (Inr v', w2)"
      using inner by (rule proxy_get_again)
    ultimately show ?thesis
      using that(1) client1 proxy_get_client [OF inner] by simp
  qed
  show ?thesis
    using again client1 nested by blast
qed

theorem proxy_property_caching_witness:
  "proxy_get 0 ''Foo'' (snd (proxy_get 1 ''onBar'' (snd (proxy_get 0 ''Foo''
      (snd (api None (new_world False))))))) =
     (Inr (Ref 1), snd (proxy_get 1 ''onBar'' (snd (proxy_get 0 ''Foo''
      (snd (api None (new_world False)))))))
   \<and> fst (proxy_get 1 ''onBar'' (snd (proxy_get 1 ''onBar'' (snd (proxy_get 0 ''Foo''
      (snd (api None (new_world False)))))))) = Inr (Ref 2)
   \<and> heap (snd (proxy_get 1 ''onBar'' (snd (proxy_get 0 ''Foo''
      (snd (api None (new_world False))))))) ! 2 = Closure (OnFn ''Foo.Bar'')
   \<and> effects (snd (proxy_get 1 ''onBar'' (snd (proxy_get 0 ''Foo''
      (snd (api None (new_world False))))))) = []"
  using proxy_property_caching
    [of 0 "''Foo''" "snd (api None (new_world False))" "Ref 1"
        "snd (proxy_get 0 ''Foo'' (snd (api None (new_world False))))"]
  by (simp add: proxy_get_def api_def alloc_def target_get_def target_set_def
      Object_prototype_keys_def new_world_def setLogging_def Let_def)

section \<open>The lifecycle sequence when a hook fails\<close>

lemma catch_rejection_fails:
  assumes "\<not> hook_completes h"
  shows "\<exists>e. catch_rejection kind c h s = (Inl e, s)"
proof (cases h)
  case (HookThrows e)
  then show ?thesis by (simp add: catch_rejection_def)
next
  case (HookReturnsPromise r)
  with assms show ?thesis by simp
next
  case (HookReturns v)
  with assms show ?thesis
    by (cases v) (auto simp: catch_rejection_def split: option.splits jsval.splits)
qed

text \<open>
  Claim C8, on the code: the sequences of \<open>unmount\<close> and \<open>enable\<close> are cut short when the
  hook of an instance fails, by a synchronous throw or by returning a value on which the
  test \<open>'catch' in promise\<close> or the call of \<open>catch\<close> raises a TypeError. With such an
  instance first in the map, \<open>unmount\<close> submits \<open>SIGKILL\<close>, emits \<open>systemWillUnmount\<close>,
  calls that one hook and ends with the exception: no other instance is unmounted, the
  map is not cleared, the worker is not terminated and \<open>systemDidUnmount\<close> is not
  emitted. \<open>enable\<close> emits \<open>systemWillEnable\<close>, calls that one hook and ends with the
  exception: no other instance is mounted and the server peer's \<open>enable\<close> is not called.
\<close>

theorem failing_hook_cuts_lifecycle_short:
  assumes "componentInstances s = (n, c) # others"
    and "componentWillUnmount c = Some hu" and "\<not> hook_completes hu"
    and "componentDidMount c = Some hm" and "\<not> hook_completes hm"
  shows "(\<exists>e. fst (unmount stringify s) = Inl e)
    \<and> steps (effects (snd (unmount stringify s))) =
        steps (effects s) @
        (if connected s
         then map SendMessage (requestQueue s @ [stringify (notification ''SIGKILL'' JUndefined)])
         else []) @
        [Emit (JStr ''systemWillUnmount'') [], HookCall WillUnmount (instance_id c)]
    \<and> componentInstances (snd (unmount stringify s)) = (n, c) # others
    \<and> (\<exists>e. fst (enable s) = Inl e)
    \<and> steps (effects (snd (enable s))) =
        steps (effects s) @
        [Emit (JStr ''systemWillEnable'') [], HookCall DidMount (instance_id c)]"
proof -
  let ?s2 = "emit (JStr ''systemWillUnmount'') []
      (send stringify (notification ''SIGKILL'' JUndefined) s)"
  let ?u = "perform (HookCall WillUnmount (instance_id c)) ?s2"
  obtain eu where eu: "catch_rejection WillUnmount c hu ?u = (Inl eu, ?u)"
    using catch_rejection_fails [OF assms(3)] by blast
  have one: "unmountComponent c ?s2 = (Inl eu, ?u)"
    using assms(2) eu by (simp add: unmountComponent_def)
  have all: "forEach unmountComponent (map snd (componentInstances s)) ?s2 = (Inl eu, ?u)"
    using assms(1) one by simp
  have un: "unmount stringify s = (Inl eu, ?u)"
    by (simp add: unmount_def notify_absent Let_def all)
  let ?e1 = "emit (JStr ''systemWillEnable'') [] s"
  let ?m = "perform (HookCall DidMount (instance_id c)) ?e1"
  obtain em where em: "catch_rejection DidMount c hm ?m = (Inl em, ?m)"
    using catch_rejection_fails [OF assms(5)] by blast
  have onem: "mountComponent c ?e1 = (Inl em, ?m)"
    using assms(4) em by (simp add: mountComponent_def)
  have allm: "forEach mountComponent (map snd (componentInstances s)) ?e1 = (Inl em, ?m)"
    using assms(1) onem by simp
  have en: "enable s = (Inl em, ?m)"
    by (simp add: enable_def Let_def allm)
  show ?thesis
    unfolding un en using assms(1) by (simp add: steps_effects_send)
qed

theorem failing_hook_cuts_lifecycle_short_witness:
  "fst (unmount (\<lambda>v. ''SIGKILL notification'')
      ((new_system False)\<lparr>componentInstances :=
         [(''Foo'', \<lparr>instance_id = 0, componentDidMount = Some (HookThrows (JStr ''boom'')),
                     componentWillUnmount = Some (HookReturns (JBool True))\<rparr>),
          (''Bar'', \<lparr>instance_id = 1, componentDidMount = Some (HookReturns JUndefined),
                     componentWillUnmount = Some (HookReturns JUndefined)\<rparr>)]\<rparr>))
     = Inl TypeError
   \<and> effects (snd (unmount (\<lambda>v. ''SIGKILL notification'')
      ((new_system False)\<lparr>componentInstances :=
         [(''Foo'', \<lparr>instance_id = 0, componentDidMount = Some (HookThrows (JStr ''boom'')),
                     componentWillUnmount = Some (HookReturns (JBool True))\<rparr>),
          (''Bar'', \<lparr>instance_id = 1, componentDidMount = Some (HookReturns JUndefined),
                     componentWillUnmount = Some (HookReturns JUndefined)\<rparr>)]\<rparr>)))
     = [Emit (JStr ''systemWillUnmount'') [], HookCall WillUnmount 0]
   \<and> effects (snd (enable
      ((new_system False)\<lparr>componentInstances :=
         [(''Foo'', \<lparr>instance_id = 0, componentDidMount = Some (HookThrows (JStr ''boom'')),
                     componentWillUnmount = Some (HookReturns (JBool True))\<rparr>),
          (''Bar'', \<lparr>instance_id = 1, componentDidMount = Some (HookReturns JUndefined),
                     componentWillUnmount = Some (HookReturns JUndefined)\<rparr>)]\<rparr>)))
     = [Emit (JStr ''systemWillEnable'') [], HookCall DidMount 0]"
  using failing_hook_cuts_lifecycle_short
    [of "(new_system False)\<lparr>componentInstances :=
         [(''Foo'', \<lparr>instance_id = 0, componentDidMount = Some (HookThrows (JStr ''boom'')),
                     componentWillUnmount = Some (HookReturns (JBool True))\<rparr>),
          (''Bar'', \<lparr>instance_id = 1, componentDidMount = Some (HookReturns JUndefined),
                     componentWillUnmount = Some (HookReturns JUndefined)\<rparr>)]\<rparr>"
        "''Foo''"
        "\<lparr>instance_id = 0, componentDidMount = Some (HookThrows (JStr ''boom'')),
          componentWillUnmount = Some (HookReturns (JBool True))\<rparr>"
        "[(''Bar'', \<lparr>instance_id = 1, componentDidMount = Some (HookReturns JUndefined),
                     componentWillUnmount = Some (HookReturns JUndefined)\<rparr>)]"
        "HookReturns (JBool True)" "HookThrows (JStr ''boom'')" "\<lambda>v. ''SIGKILL notification''"]
  by (simp add: new_system_def setLogging_def unmount_def enable_def notify_absent send_def
      sendQueuedRequests_def emit_def perform_def unmountComponent_def mountComponent_def
      catch_rejection_def Let_def)

end
